theory Spec2Isabelle
  imports Main
begin

text \<open>
  A model of the Apollo link of \<^verbatim>\<open>apollo-link-kappa\<close>, \<^verbatim>\<open>src/link.js\<close>: the result
  normalizer \<^verbatim>\<open>setTypename\<close>, the field resolver of \<^verbatim>\<open>runQuery\<close>, the dispatcher
  \<^verbatim>\<open>request\<close> and the subscriptions of \<^verbatim>\<open>runSubscription\<close>. The collaborators that
  the link calls (the view store, the document visitor and the helpers of apollo-utilities)
  are modelled at their interface.
\<close>

section \<open>JavaScript values\<close>

text \<open>
  The data handled by \<^verbatim>\<open>src/link.js\<close>: primitives, functions (opaque, named by a number),
  plain objects (a map from property names to values; the order of the properties plays no
  role in the code) and arrays. Numbers are the integers plus \<open>NaN\<close>; the code only ever
  tests them for truthiness. Only own properties are modelled: a property inherited from
  \<^verbatim>\<open>Object.prototype\<close> (such as \<^verbatim>\<open>toString\<close>) reads as \<open>Undefined\<close> here.
\<close>

datatype jsval =
    Undefined
  | Null
  | Bool bool
  | Num int
  | NaN
  | Str string
  | Fn nat
  | Obj "string \<Rightarrow> jsval option"
  | Arr "jsval list"

datatype error = TypeError | InvariantError | Rejected jsval

text \<open>\<^verbatim>\<open>ToBoolean\<close>: what \<^verbatim>\<open>if (v)\<close>, \<^verbatim>\<open>!v\<close>, \<^verbatim>\<open>a && b\<close> and \<^verbatim>\<open>a || b\<close> test.\<close>

fun truthy :: "jsval \<Rightarrow> bool" where
  "truthy Undefined = False"
| "truthy Null = False"
| "truthy (Bool b) = b"
| "truthy (Num n) = (n \<noteq> 0)"
| "truthy NaN = False"
| "truthy (Str s) = (s \<noteq> [])"
| "truthy (Fn f) = True"
| "truthy (Obj m) = True"
| "truthy (Arr xs) = True"

text \<open>\<^verbatim>\<open>a || b\<close>\<close>

definition js_or :: "jsval \<Rightarrow> jsval \<Rightarrow> jsval" where
  "js_or a b = (if truthy a then a else b)"

fun typeof :: "jsval \<Rightarrow> string" where
  "typeof Undefined = ''undefined''"
| "typeof Null = ''object''"
| "typeof (Bool b) = ''boolean''"
| "typeof (Num n) = ''number''"
| "typeof NaN = ''number''"
| "typeof (Str s) = ''string''"
| "typeof (Fn f) = ''function''"
| "typeof (Obj m) = ''object''"
| "typeof (Arr xs) = ''object''"

text \<open>The canonical decimal name of an array index, as in \<^verbatim>\<open>xs["10"]\<close>.\<close>

fun decimal :: "nat \<Rightarrow> string" where
  "decimal n =
     (if n < 10 then [''0123456789'' ! n]
      else decimal (n div 10) @ [''0123456789'' ! (n mod 10)])"

declare decimal.simps [simp del]

definition index_props :: "'a list \<Rightarrow> string \<Rightarrow> 'a option" where
  "index_props xs = map_of (zip (map decimal [0..<length xs]) xs)"

text \<open>
  The own enumerable properties of a value: what an object spread \<^verbatim>\<open>{ ...v }\<close> copies.
  Spreading \<^verbatim>\<open>null\<close>, \<^verbatim>\<open>undefined\<close>, a number or a boolean copies nothing; a string
  and an array contribute their indexed elements.
\<close>

fun own_props :: "jsval \<Rightarrow> string \<Rightarrow> jsval option" where
  "own_props (Obj m) = m"
| "own_props (Arr xs) = index_props xs"
| "own_props (Str s) = index_props (map (\<lambda>c. Str [c]) s)"
| "own_props v = Map.empty"

text \<open>
  The property read \<^verbatim>\<open>v[k]\<close> on a value that is neither \<^verbatim>\<open>null\<close> nor
  \<^verbatim>\<open>undefined\<close> (\<open>member\<close>), and the general read, which throws a
  \<^verbatim>\<open>TypeError\<close> on those two (\<open>get_prop\<close>).
\<close>

fun member :: "jsval \<Rightarrow> string \<Rightarrow> jsval" where
  "member (Arr xs) k =
     (if k = ''length'' then Num (int (length xs))
      else case index_props xs k of None \<Rightarrow> Undefined | Some v \<Rightarrow> v)"
| "member (Str s) k =
     (if k = ''length'' then Num (int (length s))
      else case index_props (map (\<lambda>c. Str [c]) s) k of None \<Rightarrow> Undefined | Some v \<Rightarrow> v)"
| "member v k = (case own_props v k of None \<Rightarrow> Undefined | Some x \<Rightarrow> x)"

definition get_prop :: "jsval \<Rightarrow> string \<Rightarrow> error + jsval" where
  "get_prop v k = (if v = Undefined \<or> v = Null then Inl TypeError else Inr (member v k))"

section \<open>The result normalizer\<close>

text \<open>
  \<^verbatim>\<open>const capitalizeFirstLetter = str => str.charAt(0).toUpperCase() + str.slice(1);\<close>
  Field names and operation kinds are GraphQL names, hence ASCII; \<open>toUpperCase\<close> is
  modelled on the ASCII letters and leaves every other character alone.
\<close>

definition toUpperCase_char :: "char \<Rightarrow> char" where
  "toUpperCase_char c =
     (case map_of (zip ''abcdefghijklmnopqrstuvwxyz'' ''ABCDEFGHIJKLMNOPQRSTUVWXYZ'') c of
        None \<Rightarrow> c | Some u \<Rightarrow> u)"

definition capitalizeFirstLetter :: "string \<Rightarrow> string" where
  "capitalizeFirstLetter str = map toUpperCase_char (take 1 str) @ drop 1 str"

text \<open>
  \<^verbatim>\<open>setTypename\<close> of \<^verbatim>\<open>src/link.js\<close>, on values:
  \<^verbatim>\<open>
  const setTypename = (data, fieldName) => {
    if (data && typeof data === 'object' && !data.__typename) {
      if (data instanceof Array) {
        return data.map(item => ({
          __typename: capitalizeFirstLetter(fieldName),
          ...item
        }));
      }
      return {
        ...data,
        __typename: capitalizeFirstLetter(fieldName)
      };
    }
    return data;
  };
  \<close>
  In the array branch the discriminator is written first and the element spread over it, so
  an element's own \<^verbatim>\<open>__typename\<close> wins; in the object branch the discriminator is
  written last.
\<close>

definition setTypename :: "jsval \<Rightarrow> string \<Rightarrow> jsval" where
  "setTypename data fieldName =
     (if truthy data \<and> typeof data = ''object'' \<and> \<not> truthy (member data ''__typename'') then
        (case data of
           Arr items \<Rightarrow>
             Arr (map (\<lambda>item. Obj ([''__typename'' \<mapsto> Str (capitalizeFirstLetter fieldName)]
                                      ++ own_props item)) items)
         | _ \<Rightarrow> Obj ((own_props data)(''__typename'' \<mapsto> Str (capitalizeFirstLetter fieldName))))
      else data)"

section \<open>The field resolver of \<^verbatim>\<open>runQuery\<close>\<close>

text \<open>
  \<^verbatim>\<open>info.directives\<close> as the execution engine hands it over: \<^verbatim>\<open>null\<close> for a field
  without directives, otherwise an object that maps each directive name to its argument
  object, or to \<^verbatim>\<open>null\<close> for a directive written without arguments. The arguments of
  \<^verbatim>\<open>@kappa\<close> (\<^verbatim>\<open>view\<close>, \<^verbatim>\<open>method\<close>, \<^verbatim>\<open>event\<close>) are strings.
\<close>

datatype dir_value = NoArgs | Args "string \<Rightarrow> string option"

type_synonym directive_info = "string \<Rightarrow> dir_value option"

record info =
  resultKey :: string
  directives :: "directive_info option"

text \<open>\<^verbatim>\<open>directives && directives.kappa\<close>: the argument object, when that test succeeds.\<close>

definition kappa_directive :: "directive_info option \<Rightarrow> (string \<Rightarrow> string option) option" where
  "kappa_directive ds =
     (case ds of
        None \<Rightarrow> None
      | Some d \<Rightarrow> (case d ''kappa'' of Some (Args a) \<Rightarrow> Some a | _ \<Rightarrow> None))"

text \<open>
  A destructured argument used as a property key, as in \<^verbatim>\<open>kappa.api[view]\<close>: a missing
  argument is \<^verbatim>\<open>undefined\<close>, which names the property \<^verbatim>\<open>"undefined"\<close>.
\<close>

definition arg_key :: "(string \<Rightarrow> string option) \<Rightarrow> string \<Rightarrow> string" where
  "arg_key a k = (case a k of None \<Rightarrow> ''undefined'' | Some s \<Rightarrow> s)"

text \<open>
  The view store (\<^verbatim>\<open>kappa.api\<close>) is an external collaborator: a view has named methods,
  each taking an argument value and yielding its eventual outcome, a value or a failure.
\<close>

record view =
  methods :: "string \<Rightarrow> (jsval \<Rightarrow> error + jsval) option"

type_synonym kappa_api = "string \<Rightarrow> view option"

text \<open>
  \<^verbatim>\<open>kappa.api[view][method](args || undefined)\<close>; reading a member of a missing view and
  calling a missing method both throw a \<^verbatim>\<open>TypeError\<close>.
\<close>

definition call_method :: "kappa_api \<Rightarrow> string \<Rightarrow> string \<Rightarrow> jsval \<Rightarrow> error + jsval" where
  "call_method api v m x =
     (case api v of
        None \<Rightarrow> Inl TypeError
      | Some vw \<Rightarrow> (case methods vw m of None \<Rightarrow> Inl TypeError | Some f \<Rightarrow> f x))"

text \<open>
  The resolver map. \<open>resolvers k\<close> is the read \<^verbatim>\<open>resolvers[k]\<close> as a function of the key
  value \<open>k\<close> (\<open>Undefined\<close> when there is no such entry). An entry of a resolver map is a
  value; it is callable when it is a function value \<open>Fn n\<close>, and \<open>resolve_fn n\<close> is what
  calling it as \<^verbatim>\<open>resolve(rootValue, args, context, info)\<close> eventually yields.
\<close>

type_synonym resolvers = "jsval \<Rightarrow> jsval"

type_synonym 'c resolve_fn = "nat \<Rightarrow> jsval \<Rightarrow> jsval \<Rightarrow> 'c \<Rightarrow> info \<Rightarrow> error + jsval"

text \<open>
  \<^verbatim>\<open>
  const resolver = async (fieldName, rootValue = {}, args, context, info) => {
    const { resultKey, directives } = info;
    if (directives && directives.kappa) {
      const { view, method } = directives.kappa;
      return kappa.api[view][method](args || undefined);
    }
    const aliasNeeded = resultKey !== fieldName;
    const aliasedNode = rootValue[resultKey];
    const preAliasingNode = rootValue[fieldName];
    if (aliasedNode !== undefined || preAliasingNode !== undefined) {
      return aliasedNode || preAliasingNode;
    }
    const resolverMap = resolvers[rootValue.__typename || type];
    if (resolverMap) {
      const resolve = resolverMap[fieldName];
      if (typeof resolve === 'function') {
        const data = await resolve(rootValue, args, context, info);
        return setTypename(data, fieldName);
      }
      return resolve;
    }
    return (
      (aliasNeeded ? aliasedNode : preAliasingNode) || null
    );
  };
  \<close>
  The result is the outcome of the returned promise: \<open>Inr\<close> the value it resolves to,
  \<open>Inl\<close> the error it is rejected with.
\<close>

definition resolver ::
  "kappa_api \<Rightarrow> 'c resolve_fn \<Rightarrow> string \<Rightarrow> resolvers \<Rightarrow>
   string \<Rightarrow> jsval \<Rightarrow> jsval \<Rightarrow> 'c \<Rightarrow> info \<Rightarrow> error + jsval" where
  "resolver api rfn type resolvers fieldName rootValue0 args context info =
     (case kappa_directive (directives info) of
        Some a \<Rightarrow> call_method api (arg_key a ''view'') (arg_key a ''method'') (js_or args Undefined)
      | None \<Rightarrow>
         (let rootValue = (if rootValue0 = Undefined then Obj Map.empty else rootValue0);
              aliasNeeded = (resultKey info \<noteq> fieldName)
          in case get_prop rootValue (resultKey info) of
               Inl e \<Rightarrow> Inl e
             | Inr aliasedNode \<Rightarrow>
                (let preAliasingNode = member rootValue fieldName in
                 if aliasedNode \<noteq> Undefined \<or> preAliasingNode \<noteq> Undefined then
                   Inr (js_or aliasedNode preAliasingNode)
                 else
                   (let resolverMap =
                          resolvers (js_or (member rootValue ''__typename'') (Str type))
                    in if truthy resolverMap then
                         (case member resolverMap fieldName of
                            Fn n \<Rightarrow>
                              (case rfn n rootValue args context info of
                                 Inl e \<Rightarrow> Inl e
                               | Inr data \<Rightarrow> Inr (setTypename data fieldName))
                          | resolve \<Rightarrow> Inr resolve)
                       else
                         Inr (js_or (if aliasNeeded then aliasedNode else preAliasingNode)
                                    Null)))))"

section \<open>Query documents\<close>

text \<open>
  The parts of a parsed document that the link and the helpers it calls read: directive
  nodes (a name and string-valued arguments), selections, and the definitions of a
  document. \<open>OperationDefinition\<close> carries the operation kind as the parser spells it
  (\<^verbatim>\<open>query\<close>, \<^verbatim>\<open>mutation\<close>, \<^verbatim>\<open>subscription\<close>), the directives attached to its
  variable definitions, its own directives and its selection set.
\<close>

datatype directive = Directive (dname: string) (dargs: "(string \<times> string) list")

datatype selection =
    Field string "directive list" "selection list"
  | FragmentSpread string "directive list"
  | InlineFragment "directive list" "selection list"

datatype definition_node =
    OperationDefinition string "directive list" "directive list" "selection list"
  | FragmentDefinition string "directive list" "selection list"

type_synonym document = "definition_node list"

text \<open>
  \<^verbatim>\<open>hasDirectives(names, doc)\<close> of apollo-utilities visits every \<^verbatim>\<open>Directive\<close> node of
  the document and asks whether one of them bears one of the names.
\<close>

fun sel_directives :: "selection \<Rightarrow> directive list"
  and sels_directives :: "selection list \<Rightarrow> directive list" where
  "sel_directives (Field n ds ss) = ds @ sels_directives ss"
| "sel_directives (FragmentSpread n ds) = ds"
| "sel_directives (InlineFragment ds ss) = ds @ sels_directives ss"
| "sels_directives [] = []"
| "sels_directives (s # ss) = sel_directives s @ sels_directives ss"

fun def_directives :: "definition_node \<Rightarrow> directive list" where
  "def_directives (OperationDefinition k vds ds ss) = vds @ ds @ sels_directives ss"
| "def_directives (FragmentDefinition n ds ss) = ds @ sels_directives ss"

definition hasDirectives :: "string list \<Rightarrow> document \<Rightarrow> bool" where
  "hasDirectives names doc =
     (\<exists>d \<in> set (concat (map def_directives doc)). dname d \<in> set names)"

text \<open>
  \<^verbatim>\<open>getMainDefinition(doc)\<close> of apollo-utilities: a document with more than one operation
  is refused; otherwise the first operation whose kind is \<^verbatim>\<open>query\<close>, \<^verbatim>\<open>mutation\<close> or
  \<^verbatim>\<open>subscription\<close> is returned, or else the first fragment definition, and a document
  with neither is refused. The result here is \<^verbatim>\<open>def.operation\<close>, which is
  \<^verbatim>\<open>undefined\<close> (\<open>None\<close>) for a fragment definition.
\<close>

fun is_operation :: "definition_node \<Rightarrow> bool" where
  "is_operation (OperationDefinition k vds ds ss) = True"
| "is_operation (FragmentDefinition n ds ss) = False"

fun main_operation :: "definition_node \<Rightarrow> string option" where
  "main_operation (OperationDefinition k vds ds ss) =
     (if k = ''query'' \<or> k = ''mutation'' \<or> k = ''subscription'' then Some k else None)"
| "main_operation (FragmentDefinition n ds ss) = None"

definition getMainDefinition_operation :: "document \<Rightarrow> error + string option" where
  "getMainDefinition_operation doc =
     (if length (filter is_operation doc) > 1 then Inl InvariantError
      else (case List.map_filter main_operation doc of
              k # ks \<Rightarrow> Inr (Some k)
            | [] \<Rightarrow> (if list_ex (\<lambda>d. \<not> is_operation d) doc then Inr None
                      else Inl InvariantError)))"

text \<open>
  The traversal of \<^verbatim>\<open>runSubscription\<close>:
  \<^verbatim>\<open>
  let field = null;
  visit(operation.query, {
    Field(node) {
      if (node.directives && node.directives.find(d => d.name.value === 'kappa')) {
        field = node;
        return BREAK;
      }
    }
  });
  \<close>
  \<^verbatim>\<open>visit\<close> enters the nodes depth first, a node before its children, the definitions in
  the order of the document; \<^verbatim>\<open>BREAK\<close> ends the traversal. Of the node found,
  \<^verbatim>\<open>runSubscription\<close> reads the name and the directives.
\<close>

definition has_kappa :: "directive list \<Rightarrow> bool" where
  "has_kappa ds = (\<exists>d \<in> set ds. dname d = ''kappa'')"

type_synonym field_node = "string \<times> directive list"

fun visit_sel :: "selection \<Rightarrow> field_node option"
  and visit_sels :: "selection list \<Rightarrow> field_node option" where
  "visit_sel (Field n ds ss) = (if has_kappa ds then Some (n, ds) else visit_sels ss)"
| "visit_sel (FragmentSpread n ds) = None"
| "visit_sel (InlineFragment ds ss) = visit_sels ss"
| "visit_sels [] = None"
| "visit_sels (s # ss) = (case visit_sel s of Some f \<Rightarrow> Some f | None \<Rightarrow> visit_sels ss)"

fun def_selections :: "definition_node \<Rightarrow> selection list" where
  "def_selections (OperationDefinition k vds ds ss) = ss"
| "def_selections (FragmentDefinition n ds ss) = ss"

fun visit_document :: "document \<Rightarrow> field_node option" where
  "visit_document [] = None"
| "visit_document (d # ds) =
     (case visit_sels (def_selections d) of Some f \<Rightarrow> Some f | None \<Rightarrow> visit_document ds)"

text \<open>
  All field nodes of a document in pre-order (each with its name and its directives), and
  those that carry the directive: the reference against which the traversal above is
  compared.
\<close>

fun sel_fields :: "selection \<Rightarrow> field_node list"
  and sels_fields :: "selection list \<Rightarrow> field_node list" where
  "sel_fields (Field n ds ss) = (n, ds) # sels_fields ss"
| "sel_fields (FragmentSpread n ds) = []"
| "sel_fields (InlineFragment ds ss) = sels_fields ss"
| "sels_fields [] = []"
| "sels_fields (s # ss) = sel_fields s @ sels_fields ss"

definition document_fields :: "document \<Rightarrow> field_node list" where
  "document_fields doc = concat (map (\<lambda>d. sels_fields (def_selections d)) doc)"

definition annotated_fields :: "document \<Rightarrow> field_node list" where
  "annotated_fields doc = filter (\<lambda>f. has_kappa (snd f)) (document_fields doc)"

text \<open>
  \<^verbatim>\<open>getDirectiveInfoFromField(field)\<close> of apollo-utilities: \<^verbatim>\<open>null\<close> for a field without
  directives; otherwise each directive, in order, stores its argument object under its
  name (\<^verbatim>\<open>null\<close> when it has no arguments), a later one replacing an earlier one.
\<close>

definition argumentsObject :: "(string \<times> string) list \<Rightarrow> dir_value" where
  "argumentsObject as =
     (if as = [] then NoArgs else Args (foldl (\<lambda>m (k, v). m(k \<mapsto> v)) Map.empty as))"

definition getDirectiveInfoFromField :: "directive list \<Rightarrow> directive_info option" where
  "getDirectiveInfoFromField ds =
     (if ds = [] then None
      else Some (foldl (\<lambda>m d. m(dname d \<mapsto> argumentsObject (dargs d))) Map.empty ds))"

section \<open>The operation dispatcher\<close>

text \<open>
  \<^verbatim>\<open>
  function normalizeTypeDefs(typeDefs) {
    const defs = Array.isArray(typeDefs) ? typeDefs : [typeDefs];
    return defs
      .map(typeDef => (typeof typeDef === 'string' ? typeDef : print(typeDef)))
      .map(str => str.trim())
      .join('\n');
  }
  \<close>
  A type definition is a string or a parsed document; the latter is represented by the
  text that \<^verbatim>\<open>print\<close> gives for it. Strings are byte strings here, and \<open>trim\<close> strips
  the ASCII white space; the white space beyond ASCII that \<^verbatim>\<open>String.prototype.trim\<close>
  also strips (such as U+00A0 and U+FEFF) is not represented.
\<close>

datatype typeDef = TypeDefString string | TypeDefNode string

datatype typeDefs = Single typeDef | Many "typeDef list"

fun typeDef_text :: "typeDef \<Rightarrow> string" where
  "typeDef_text (TypeDefString s) = s"
| "typeDef_text (TypeDefNode printed) = printed"

definition is_space :: "char \<Rightarrow> bool" where
  "is_space c = (c \<in> set [CHR '' '', CHR 0x09, CHR 0x0A, CHR 0x0B, CHR 0x0C, CHR 0x0D])"

definition trim :: "string \<Rightarrow> string" where
  "trim s = rev (dropWhile is_space (rev (dropWhile is_space s)))"

fun join_lines :: "string list \<Rightarrow> string" where
  "join_lines [] = []"
| "join_lines [x] = x"
| "join_lines (x # y # ys) = x @ [CHR 0x0A] @ join_lines (y # ys)"

definition normalizeTypeDefs :: "typeDefs \<Rightarrow> string" where
  "normalizeTypeDefs tds =
     (let defs = (case tds of Many ds \<Rightarrow> ds | Single d \<Rightarrow> [d])
      in join_lines (map trim (map typeDef_text defs)))"

text \<open>\<^verbatim>\<open>if (typeDefs)\<close>: an absent value (\<open>None\<close> below) and the empty string fail the test.\<close>

fun typeDefs_truthy :: "typeDefs \<Rightarrow> bool" where
  "typeDefs_truthy (Single (TypeDefString s)) = (s \<noteq> [])"
| "typeDefs_truthy t = True"

text \<open>
  The context bag of an operation: the two keys the link writes; every other key lives in
  the extension of the record and is carried along untouched.
\<close>

record op_context =
  schemas :: "(string \<times> string) list option"
  kappa :: "kappa_api option"

record 'x operation =
  query :: document
  variables :: jsval
  getContext :: "'x op_context_scheme"

datatype resolvers_option = ResolversObject resolvers | ResolversFactory "unit \<Rightarrow> error + resolvers"

record link =
  link_kappa :: kappa_api
  link_resolvers :: resolvers_option
  link_typeDefs :: "typeDefs option"

text \<open>
  What \<^verbatim>\<open>runSubscription\<close> derives from the operation: the name of the field, the
  subscription resolver and the variables of the operation. The resolver is either the
  closure built for \<^verbatim>\<open>@kappa(view, event)\<close>, which holds the view, the event and the
  \<^verbatim>\<open>filter\<close> read from the resolver map, or the entry \<^verbatim>\<open>subscriptionResolvers[name]\<close>.
\<close>

datatype sub_resolver = OnEvent string string jsval | Custom jsval

record binding =
  b_name :: string
  b_resolver :: sub_resolver
  b_variables :: jsval

datatype 'r sub_result = SubForwarded 'r | SubThrown error | Subscribable binding

text \<open>
  \<^verbatim>\<open>
  runSubscription({ type, resolvers, operation, forward }) {
    const subscriptionResolvers = resolvers[type] || {};
    let field = null;
    visit(operation.query, { Field(node) { ... } });
    if (!field && forward) {
      return forward(operation);
    }
    const name = field.name.value;
    const directive = getDirectiveInfoFromField(field);
    let resolver;
    if (directive.kappa) {
      const { view, event } = directive.kappa;
      const { filter } = subscriptionResolvers[name] || {};
      resolver = (_, args, { next }) => { ... };
    } else {
      resolver = subscriptionResolvers[name];
    }
    if (!resolver) {
      console.warn(`No resolver registered for ${name}`);
    }
    return { subscribe: (observer) => { ... } };
  }
  \<close>
  Without a field and without \<^verbatim>\<open>forward\<close>, \<^verbatim>\<open>field.name\<close> throws.
\<close>

definition runSubscription ::
  "string \<Rightarrow> resolvers \<Rightarrow> 'x operation \<Rightarrow> ('x operation \<Rightarrow> 'r) option \<Rightarrow> 'r sub_result" where
  "runSubscription type resolvers operation forward =
     (let subscriptionResolvers = js_or (resolvers (Str type)) (Obj Map.empty) in
      case visit_document (query operation) of
        None \<Rightarrow>
          (case forward of Some f \<Rightarrow> SubForwarded (f operation) | None \<Rightarrow> SubThrown TypeError)
      | Some (name, ds) \<Rightarrow>
          (case getDirectiveInfoFromField ds of
             None \<Rightarrow> SubThrown TypeError
           | Some directive \<Rightarrow>
               (case directive ''kappa'' of
                  Some (Args a) \<Rightarrow>
                    Subscribable
                      \<lparr>b_name = name,
                       b_resolver =
                         OnEvent (arg_key a ''view'') (arg_key a ''event'')
                           (member (js_or (member subscriptionResolvers name) (Obj Map.empty))
                              ''filter''),
                       b_variables = variables operation\<rparr>
                | _ \<Rightarrow>
                    Subscribable
                      \<lparr>b_name = name,
                       b_resolver = Custom (member subscriptionResolvers name),
                       b_variables = variables operation\<rparr>)))"

text \<open>
  \<^verbatim>\<open>runQuery\<close> returns an observable which, once the view store is ready, hands
  \<open>resolver\<close> (with this type and these resolvers) to the external execution engine.
\<close>

datatype 'x query_observable = QueryObservable string resolvers "'x operation"

definition runQuery :: "string \<Rightarrow> resolvers \<Rightarrow> 'x operation \<Rightarrow> 'x query_observable" where
  "runQuery type resolvers operation = QueryObservable type resolvers operation"

datatype ('x, 'r) request_result =
    Forwarded 'r
  | ReturnedUndefined
  | RunQuery "'x query_observable"
  | RunSubscription "'r sub_result"
  | InvalidType string
  | Thrown error

text \<open>
  \<^verbatim>\<open>
  request(operation, forward) {
    const { kappa, typeDefs } = this;
    if (typeDefs) {
      const definition = normalizeTypeDefs(typeDefs);
      const directives = 'directive @kappa on FIELD';
      operation.setContext(({ schemas = [] }) => ({
        schemas: schemas.concat([{ definition, directives }])
      }));
    }
    operation.setContext(prevContext => ({ ...prevContext, kappa }));
    if (!hasDirectives(['kappa'], operation.query)) {
      return forward && forward(operation);
    }
    const def = getMainDefinition(operation.query);
    const resolvers = typeof this.resolvers === 'function' ? this.resolvers() : this.resolvers;
    const type = capitalizeFirstLetter(def.operation || 'Query');
    switch (type) {
      case 'Mutation':
      case 'Query': return this.runQuery({ type, resolvers, operation, forward });
      case 'Subscription': return this.runSubscription({ type, resolvers, operation, forward });
      default: console.error('Invalid type:', type);
    }
  }
  \<close>
\<close>

definition extend_context :: "link \<Rightarrow> 'x operation \<Rightarrow> 'x operation" where
  "extend_context l operation =
     (let c0 = getContext operation;
          c1 = (case link_typeDefs l of
                  None \<Rightarrow> c0
                | Some typeDefs \<Rightarrow>
                    if typeDefs_truthy typeDefs then
                      c0\<lparr>schemas :=
                           Some ((case schemas c0 of None \<Rightarrow> [] | Some xs \<Rightarrow> xs)
                                 @ [(normalizeTypeDefs typeDefs,
                                     ''directive @kappa on FIELD'')])\<rparr>
                    else c0)
      in operation\<lparr>getContext := c1\<lparr>kappa := Some (link_kappa l)\<rparr>\<rparr>)"

definition request ::
  "link \<Rightarrow> 'x operation \<Rightarrow> ('x operation \<Rightarrow> 'r) option \<Rightarrow> ('x, 'r) request_result" where
  "request l operation0 forward =
     (let operation = extend_context l operation0 in
      if \<not> hasDirectives [''kappa''] (query operation) then
        (case forward of None \<Rightarrow> ReturnedUndefined | Some f \<Rightarrow> Forwarded (f operation))
      else
        (case getMainDefinition_operation (query operation) of
           Inl e \<Rightarrow> Thrown e
         | Inr kind \<Rightarrow>
            (case (case link_resolvers l of
                     ResolversObject r \<Rightarrow> Inr r
                   | ResolversFactory factory \<Rightarrow> factory ()) of
               Inl e \<Rightarrow> Thrown e
             | Inr resolvers \<Rightarrow>
                (let type = capitalizeFirstLetter
                              (case kind of
                                 None \<Rightarrow> ''Query''
                               | Some k \<Rightarrow> if k = [] then ''Query'' else k)
                 in if type = ''Mutation'' \<or> type = ''Query'' then
                      RunQuery (runQuery type resolvers operation)
                    else if type = ''Subscription'' then
                      RunSubscription (runSubscription type resolvers operation forward)
                    else InvalidType type))))"

section \<open>The life of a subscription\<close>

text \<open>
  \<^verbatim>\<open>
  subscribe: (observer) => {
    const observerErrorHandler = observer.error.bind(observer);
    let unsubscribe;
    kappa.ready(() => {
      unsubscribe = resolver && resolver({}, operation.variables, {
        ...operation.getContext(),
        next(data) {
          const nextData = setTypename(data, name);
          observer.next({ data: { [name]: nextData } });
        },
        error(err) { observerErrorHandler(err); }
      });
    });
    return {
      unsubscribe() {
        if (unsubscribe) {
          unsubscribe();
        }
      }
    };
  }
  \<close>
  and the resolver built for \<^verbatim>\<open>@kappa(view, event)\<close>:
  \<^verbatim>\<open>
  resolver = (_, args, { next }) => {
    const onEvent = (data) => {
      if (filter) {
        if (filter(data, args)) { next(data); }
      } else {
        next(data);
      }
    };
    kappa.api[view].events.on(event, onEvent);
    return () => { kappa.api[view].events.removeListener(event, onEvent); };
  };
  \<close>
  The state these closures share is made explicit. A \<open>listener\<close> is one \<^verbatim>\<open>onEvent\<close>
  closure with what it captured; its \<open>l_id\<close> stands for the identity of the function
  object, by which \<^verbatim>\<open>removeListener\<close> finds it. A \<open>cell\<close> is the variable
  \<^verbatim>\<open>unsubscribe\<close> of one call of \<^verbatim>\<open>subscribe\<close>. An observer is named by a number and
  \<open>emitted\<close> records the calls of \<^verbatim>\<open>observer.next\<close> in order. An exception that escapes
  a callback is recorded in \<open>uncaught\<close>.
\<close>

record listener =
  l_id :: nat
  l_view :: string
  l_event :: string
  l_filter :: jsval
  l_args :: jsval
  l_name :: string
  l_observer :: nat

datatype cell = Unset | Remover nat | Opaque | Falsy jsval

record callback =
  cb_cell :: nat
  cb_binding :: binding
  cb_observer :: nat

text \<open>
  Modelled from the spec: the view store itself is not part of this repository. Its
  \<^verbatim>\<open>ready(callback)\<close> is a one-shot gate: a callback registered before the gate fires
  waits, in order of registration, and one registered afterwards runs at once. Each
  existing view has an event emitter with \<^verbatim>\<open>on\<close>, \<^verbatim>\<open>removeListener\<close> and
  \<^verbatim>\<open>emit\<close>, which calls the listeners of the event in the order of their registration
  and stops at a listener that throws.
\<close>

record world =
  views :: "string set"
  is_ready :: bool
  waiting :: "callback list"
  listeners :: "listener list"
  next_id :: nat
  cells :: "cell list"
  emitted :: "(nat \<times> jsval) list"
  uncaught :: "error list"

text \<open>
  The callback handed to \<^verbatim>\<open>kappa.ready\<close>: \<^verbatim>\<open>unsubscribe = resolver && resolver(...)\<close>.
  For the \<^verbatim>\<open>@kappa\<close> resolver, a missing view makes \<^verbatim>\<open>kappa.api[view].events\<close> throw
  before anything is registered. A custom resolver is user code: what it registers lies
  outside this model, and the handle it returns is \<open>Opaque\<close>; an entry that is truthy but
  not a function cannot be called.
\<close>

definition run_callback :: "world \<Rightarrow> callback \<Rightarrow> world" where
  "run_callback w cb =
     (case b_resolver (cb_binding cb) of
        OnEvent v e f \<Rightarrow>
          (if v \<in> views w then
             w\<lparr>listeners := listeners w @
                  [\<lparr>l_id = next_id w, l_view = v, l_event = e, l_filter = f,
                    l_args = b_variables (cb_binding cb), l_name = b_name (cb_binding cb),
                    l_observer = cb_observer cb\<rparr>],
               next_id := Suc (next_id w),
               cells := (cells w)[cb_cell cb := Remover (next_id w)]\<rparr>
           else w\<lparr>uncaught := uncaught w @ [TypeError]\<rparr>)
      | Custom r \<Rightarrow>
          (if \<not> truthy r then w\<lparr>cells := (cells w)[cb_cell cb := Falsy r]\<rparr>
           else (case r of
                   Fn n \<Rightarrow> w\<lparr>cells := (cells w)[cb_cell cb := Opaque]\<rparr>
                 | _ \<Rightarrow> w\<lparr>uncaught := uncaught w @ [TypeError]\<rparr>)))"

text \<open>\<^verbatim>\<open>subscribe(observer)\<close>: the new world and the handle, which names the cell.\<close>

definition subscribe :: "world \<Rightarrow> binding \<Rightarrow> nat \<Rightarrow> world \<times> nat" where
  "subscribe w b observer =
     (let c = length (cells w);
          cb = \<lparr>cb_cell = c, cb_binding = b, cb_observer = observer\<rparr>;
          w1 = w\<lparr>cells := cells w @ [Unset]\<rparr>
      in (if is_ready w1 then run_callback w1 cb else w1\<lparr>waiting := waiting w1 @ [cb]\<rparr>, c))"

text \<open>The readiness gate fires: the waiting callbacks run in order.\<close>

definition fire_ready :: "world \<Rightarrow> world" where
  "fire_ready w = foldl run_callback (w\<lparr>is_ready := True, waiting := []\<rparr>) (waiting w)"

text \<open>
  The handle's \<^verbatim>\<open>unsubscribe()\<close>: \<^verbatim>\<open>if (unsubscribe) { unsubscribe(); }\<close>. Only a cell
  that holds the closure returned by the \<^verbatim>\<open>@kappa\<close> resolver changes the emitter.
\<close>

definition unsubscribe :: "world \<Rightarrow> nat \<Rightarrow> world" where
  "unsubscribe w c =
     (if c < length (cells w) then
        (case cells w ! c of
           Remover i \<Rightarrow> w\<lparr>listeners := filter (\<lambda>l. l_id l \<noteq> i) (listeners w)\<rparr>
         | _ \<Rightarrow> w)
      else w)"

text \<open>
  \<^verbatim>\<open>onEvent(data)\<close> of one listener: an error, nothing, or the value handed to
  \<^verbatim>\<open>observer.next\<close>. \<open>filter_fn n\<close> is what the function value \<open>Fn n\<close> returns when
  called as \<^verbatim>\<open>filter(data, args)\<close>.
\<close>

definition next_value :: "string \<Rightarrow> jsval \<Rightarrow> jsval" where
  "next_value name data =
     (let nextData = setTypename data name
      in Obj [''data'' \<mapsto> Obj [name \<mapsto> nextData]])"

definition onEvent :: "(nat \<Rightarrow> jsval \<Rightarrow> jsval \<Rightarrow> jsval) \<Rightarrow> listener \<Rightarrow> jsval \<Rightarrow> error + jsval option" where
  "onEvent filter_fn l data =
     (if truthy (l_filter l) then
        (case l_filter l of
           Fn n \<Rightarrow>
             (if truthy (filter_fn n data (l_args l)) then Inr (Some (next_value (l_name l) data))
              else Inr None)
         | _ \<Rightarrow> Inl TypeError)
      else Inr (Some (next_value (l_name l) data)))"

fun deliver :: "(nat \<Rightarrow> jsval \<Rightarrow> jsval \<Rightarrow> jsval) \<Rightarrow> jsval \<Rightarrow> listener list \<Rightarrow> world \<Rightarrow> world" where
  "deliver filter_fn data [] w = w"
| "deliver filter_fn data (l # ls) w =
     (case onEvent filter_fn l data of
        Inl err \<Rightarrow> w\<lparr>uncaught := uncaught w @ [err]\<rparr>
      | Inr None \<Rightarrow> deliver filter_fn data ls w
      | Inr (Some v) \<Rightarrow> deliver filter_fn data ls (w\<lparr>emitted := emitted w @ [(l_observer l, v)]\<rparr>))"

text \<open>\<^verbatim>\<open>kappa.api[view].events.emit(event, data)\<close>\<close>

definition emit :: "(nat \<Rightarrow> jsval \<Rightarrow> jsval \<Rightarrow> jsval) \<Rightarrow> world \<Rightarrow> string \<Rightarrow> string \<Rightarrow> jsval \<Rightarrow> world" where
  "emit filter_fn w v e data =
     deliver filter_fn data (filter (\<lambda>l. l_view l = v \<and> l_event l = e) (listeners w)) w"


text \<open>Listener identities are fresh: no registered listener bears an identity not yet issued.\<close>

definition fresh_ids :: "world \<Rightarrow> bool" where
  "fresh_ids w = (\<forall>l \<in> set (listeners w). l_id l < next_id w)"

section \<open>The result normalizer on a store\<close>

text \<open>
  Whether \<^verbatim>\<open>setTypename\<close> changes the object it is given cannot be said of values alone.
  Here objects live in a store and a value refers to them by address; an object has a
  kind, the elements of an array, and its named own properties. A new object is placed at
  the end of the store.
\<close>

datatype hval = HUndefined | HNull | HBool bool | HNum int | HNaN | HStr string | HRef nat

datatype hkind = PlainObject | ArrayObject | FunctionObject

record hobj =
  kind :: hkind
  elems :: "hval list"
  props :: "string \<Rightarrow> hval option"

type_synonym store = "hobj list"

fun h_truthy :: "hval \<Rightarrow> bool" where
  "h_truthy HUndefined = False"
| "h_truthy HNull = False"
| "h_truthy (HBool b) = b"
| "h_truthy (HNum n) = (n \<noteq> 0)"
| "h_truthy HNaN = False"
| "h_truthy (HStr s) = (s \<noteq> [])"
| "h_truthy (HRef a) = True"

definition alloc :: "store \<Rightarrow> hobj \<Rightarrow> store \<times> hval" where
  "alloc h obj = (h @ [obj], HRef (length h))"

text \<open>What \<^verbatim>\<open>{ ...v }\<close> copies.\<close>

fun spread :: "store \<Rightarrow> hval \<Rightarrow> string \<Rightarrow> hval option" where
  "spread h (HRef a) =
     (if a < length h then
        (if kind (h ! a) = ArrayObject then index_props (elems (h ! a)) ++ props (h ! a)
         else props (h ! a))
      else Map.empty)"
| "spread h (HStr s) = index_props (map (\<lambda>c. HStr [c]) s)"
| "spread h v = Map.empty"

text \<open>\<^verbatim>\<open>data && typeof data === 'object' && !data.__typename\<close>, with the address of the object.\<close>

definition lacks_typename :: "store \<Rightarrow> hval \<Rightarrow> nat option" where
  "lacks_typename h data =
     (case data of
        HRef a \<Rightarrow>
          (if a < length h \<and> kind (h ! a) \<noteq> FunctionObject
              \<and> \<not> h_truthy (case props (h ! a) ''__typename'' of None \<Rightarrow> HUndefined | Some v \<Rightarrow> v)
           then Some a else None)
      | _ \<Rightarrow> None)"

text \<open>
  \<^verbatim>\<open>setTypename\<close> of \<^verbatim>\<open>src/link.js\<close> (quoted above): \<^verbatim>\<open>data.map\<close> builds one new
  object per element and a new array; the object branch builds one new object.
\<close>

fun copy_items :: "store \<Rightarrow> hval list \<Rightarrow> string \<Rightarrow> store \<times> hval list" where
  "copy_items h [] tn = (h, [])"
| "copy_items h (item # items) tn =
     (let (h1, r) = alloc h \<lparr>kind = PlainObject, elems = [],
                              props = [''__typename'' \<mapsto> HStr tn] ++ spread h item\<rparr>;
          (h2, rs) = copy_items h1 items tn
      in (h2, r # rs))"

definition setTypename_store :: "store \<Rightarrow> hval \<Rightarrow> string \<Rightarrow> store \<times> hval" where
  "setTypename_store h data fieldName =
     (case lacks_typename h data of
        Some a \<Rightarrow>
          (if kind (h ! a) = ArrayObject then
             (let (h1, rs) = copy_items h (elems (h ! a)) (capitalizeFirstLetter fieldName)
              in alloc h1 \<lparr>kind = ArrayObject, elems = rs, props = Map.empty\<rparr>)
           else
             alloc h \<lparr>kind = PlainObject, elems = [],
                      props = (spread h data)(''__typename'' \<mapsto>
                                 HStr (capitalizeFirstLetter fieldName))\<rparr>)
      | None \<Rightarrow> (h, data))"

text \<open>
  The repository holds a second copy of \<^verbatim>\<open>link.js\<close>, the one whose constructor also
  takes \<^verbatim>\<open>framework\<close> (which it stores in the context next to \<^verbatim>\<open>kappa\<close>). Its
  resolver, dispatcher and subscriptions read as those of \<^verbatim>\<open>src/link.js\<close>; its
  \<^verbatim>\<open>setTypename\<close> assigns instead:
  \<^verbatim>\<open>
  const setTypename = (data, fieldName) => {
    if (data && typeof data === 'object' && !data.__typename) {
      if (data instanceof Array) {
        return data.map((item) => {
          // eslint-disable-next-line no-param-reassign
          item.__typename = capitalizeFirstLetter(fieldName);
          return item;
        });
      }
      // eslint-disable-next-line no-param-reassign
      data.__typename = capitalizeFirstLetter(fieldName);
    }
    return data;
  };
  \<close>
  The assignment \<^verbatim>\<open>item.__typename = v\<close> writes into the object the item refers to; on
  \<^verbatim>\<open>null\<close>, \<^verbatim>\<open>undefined\<close> and, in the strict mode of a module, on any other primitive
  it throws a \<^verbatim>\<open>TypeError\<close>. What was written before an exception stays written, so the
  store is returned in either case.
\<close>

definition assign_typename :: "store \<Rightarrow> hval \<Rightarrow> hval \<Rightarrow> error + store" where
  "assign_typename h target v =
     (case target of
        HRef a \<Rightarrow>
          (if a < length h then
             Inr (h[a := (h ! a)\<lparr>props := (props (h ! a))(''__typename'' \<mapsto> v)\<rparr>])
           else Inl TypeError)
      | _ \<Rightarrow> Inl TypeError)"

fun stamp_items :: "store \<Rightarrow> hval list \<Rightarrow> string \<Rightarrow> store \<times> error option" where
  "stamp_items h [] tn = (h, None)"
| "stamp_items h (item # items) tn =
     (case assign_typename h item (HStr tn) of
        Inl e \<Rightarrow> (h, Some e)
      | Inr h1 \<Rightarrow> stamp_items h1 items tn)"

definition setTypename_inplace :: "store \<Rightarrow> hval \<Rightarrow> string \<Rightarrow> store \<times> (error + hval)" where
  "setTypename_inplace h data fieldName =
     (case lacks_typename h data of
        Some a \<Rightarrow>
          (if kind (h ! a) = ArrayObject then
             (case stamp_items h (elems (h ! a)) (capitalizeFirstLetter fieldName) of
                (h1, Some e) \<Rightarrow> (h1, Inl e)
              | (h1, None) \<Rightarrow>
                  (let (h2, r) = alloc h1 \<lparr>kind = ArrayObject, elems = elems (h ! a),
                                           props = Map.empty\<rparr>
                   in (h2, Inr r)))
           else
             (case assign_typename h data (HStr (capitalizeFirstLetter fieldName)) of
                Inl e \<Rightarrow> (h, Inl e)
              | Inr h1 \<Rightarrow> (h1, Inr data)))
      | None \<Rightarrow> (h, Inr data))"

section \<open>Auxiliary notions and sample inputs\<close>

text \<open>The parent value after the default \<^verbatim>\<open>rootValue = {}\<close> has been applied.\<close>

definition parent_of :: "jsval \<Rightarrow> jsval" where
  "parent_of rootValue = (if rootValue = Undefined then Obj Map.empty else rootValue)"

text \<open>
  The listener that the callback of a \<^verbatim>\<open>@kappa\<close> binding registers in the world \<open>w\<close>.
\<close>

definition new_listener :: "world \<Rightarrow> string \<Rightarrow> string \<Rightarrow> jsval \<Rightarrow> binding \<Rightarrow> nat \<Rightarrow> listener" where
  "new_listener w v e f b observer =
     \<lparr>l_id = next_id w, l_view = v, l_event = e, l_filter = f, l_args = b_variables b,
      l_name = b_name b, l_observer = observer\<rparr>"

text \<open>
  The world once the readiness gate has fired, and the world in which a subscription has
  been made and the gate has fired.
\<close>

definition settled :: "world \<Rightarrow> world" where
  "settled w = (if is_ready w then w else fire_ready w)"

definition bound_world :: "world \<Rightarrow> binding \<Rightarrow> nat \<Rightarrow> world" where
  "bound_world w b observer = settled (fst (subscribe w b observer))"

text \<open>The calls of \<^verbatim>\<open>observer.next\<close> that the delivery of one payload to a list of listeners makes.\<close>

fun emissions :: "(nat \<Rightarrow> jsval \<Rightarrow> jsval \<Rightarrow> jsval) \<Rightarrow> jsval \<Rightarrow> listener list \<Rightarrow> (nat \<times> jsval) list" where
  "emissions filter_fn data [] = []"
| "emissions filter_fn data (l # ls) =
     (case onEvent filter_fn l data of
        Inl err \<Rightarrow> []
      | Inr None \<Rightarrow> emissions filter_fn data ls
      | Inr (Some v) \<Rightarrow> (l_observer l, v) # emissions filter_fn data ls)"

text \<open>Sample inputs, at which the theorems below are instantiated.\<close>

definition items_api :: kappa_api where
  "items_api = [''items'' \<mapsto> \<lparr>methods = [''get'' \<mapsto> (\<lambda>x. Inr (Obj [''asked'' \<mapsto> x]))]\<rparr>]"

definition kappa_get_info :: info where
  "kappa_get_info =
     \<lparr>resultKey = ''item'',
      directives = Some [''kappa'' \<mapsto> Args [''view'' \<mapsto> ''items'', ''method'' \<mapsto> ''get'']]\<rparr>"

definition query_resolvers :: resolvers where
  "query_resolvers = (\<lambda>k. if k = Str ''Query'' then Obj [''onItem'' \<mapsto> Fn 0] else Undefined)"

definition plain_info :: info where
  "plain_info = \<lparr>resultKey = ''onItem'', directives = None\<rparr>"

definition zero_parent :: jsval where
  "zero_parent = Obj [''count'' \<mapsto> Num 0]"

definition alias_parent :: jsval where
  "alias_parent = Obj [''count'' \<mapsto> Num 0, ''total'' \<mapsto> Num 5]"

definition count_info :: info where
  "count_info = \<lparr>resultKey = ''count'', directives = None\<rparr>"

definition other_info :: info where
  "other_info = \<lparr>resultKey = ''other'', directives = None\<rparr>"

definition items_query :: document where
  "items_query = [OperationDefinition ''query'' [] [] [Field ''items'' [] [Field ''id'' [] []]]]"

definition sample_link :: link where
  "sample_link =
     \<lparr>link_kappa = items_api,
      link_resolvers = ResolversFactory (\<lambda>u. Inl TypeError),
      link_typeDefs = Some (Single (TypeDefString '' type Item { id: ID } ''))\<rparr>"

definition items_operation :: "unit operation" where
  "items_operation =
     \<lparr>query = items_query, variables = Obj Map.empty,
      getContext = \<lparr>schemas = None, kappa = None\<rparr>\<rparr>"

definition quiet_world :: world where
  "quiet_world =
     \<lparr>views = {''items''}, is_ready = False, waiting = [], listeners = [], next_id = 0,
      cells = [], emitted = [], uncaught = []\<rparr>"

definition onItem_binding :: binding where
  "onItem_binding =
     \<lparr>b_name = ''onItem'', b_resolver = OnEvent ''items'' ''added'' Undefined,
      b_variables = Obj Map.empty\<rparr>"

definition two_field_subscription :: document where
  "two_field_subscription =
     [OperationDefinition ''subscription'' [] []
        [Field ''onItem'' [Directive ''kappa'' [(''view'', ''items''), (''event'', ''added'')]]
           [Field ''id'' [] []],
         Field ''onGone'' [Directive ''kappa'' [(''view'', ''items''), (''event'', ''removed'')]]
           [Field ''id'' [] []]]]"

definition subscription_operation :: "unit operation" where
  "subscription_operation =
     \<lparr>query = two_field_subscription, variables = Obj Map.empty,
      getContext = \<lparr>schemas = None, kappa = None\<rparr>\<rparr>"

definition filtering_resolvers :: resolvers where
  "filtering_resolvers =
     (\<lambda>k. if k = Str ''Subscription'' then Obj [''onItem'' \<mapsto> Obj [''filter'' \<mapsto> Fn 0]]
          else Undefined)"

definition filtered_binding :: binding where
  "filtered_binding =
     \<lparr>b_name = ''onItem'', b_resolver = OnEvent ''items'' ''added'' (Fn 0),
      b_variables = Obj Map.empty\<rparr>"

definition same_pair_operation :: "unit operation" where
  "same_pair_operation =
     \<lparr>query =
        [OperationDefinition ''subscription'' [] []
           [Field ''onItem'' [Directive ''kappa'' [(''view'', ''items''), (''event'', ''added'')]]
              [Field ''id'' [] []],
            Field ''onAgain'' [Directive ''kappa'' [(''view'', ''items''), (''event'', ''added'')]]
              [Field ''id'' [] []]]],
      variables = Obj Map.empty,
      getContext = \<lparr>schemas = None, kappa = None\<rparr>\<rparr>"

definition bare_operation :: "unit operation" where
  "bare_operation =
     \<lparr>query =
        [OperationDefinition ''subscription'' [] []
           [Field ''onItem'' [Directive ''kappa'' []] [Field ''id'' [] []],
            Field ''onGone'' [Directive ''kappa'' [(''view'', ''items''), (''event'', ''removed'')]]
              [Field ''id'' [] []]]],
      variables = Obj Map.empty,
      getContext = \<lparr>schemas = None, kappa = None\<rparr>\<rparr>"

definition bare_binding :: binding where
  "bare_binding =
     \<lparr>b_name = ''onItem'', b_resolver = Custom Undefined, b_variables = Obj Map.empty\<rparr>"



definition pets_store :: store where
  "pets_store =
     [\<lparr>kind = PlainObject, elems = [], props = [''__typename'' \<mapsto> HStr ''Cat'']\<rparr>,
      \<lparr>kind = ArrayObject, elems = [HRef 0], props = Map.empty\<rparr>]"

definition item_store :: store where
  "item_store = [\<lparr>kind = PlainObject, elems = [], props = [''id'' \<mapsto> HStr ''x1'']\<rparr>]"

section \<open>Properties of the result normalizer\<close>

lemma decimal_digits: "set (decimal n) \<subseteq> set ''0123456789''"
proof (induction n rule: decimal.induct)
  case (1 n)
  have digit: "\<And>k. k < 10 \<Longrightarrow> ''0123456789'' ! k \<in> set ''0123456789''"
    by (rule nth_mem) simp
  show ?case
  proof (cases "n < 10")
    case True
    then show ?thesis using digit[of n] by (subst decimal.simps) simp
  next
    case False
    have "n mod 10 < 10" by simp
    from digit[OF this] 1[OF False] False show ?thesis
      by (subst decimal.simps) simp
  qed
qed

lemma typename_not_index: "index_props xs ''__typename'' = None"
proof -
  have "''__typename'' \<notin> set (map decimal [0..<length xs])"
  proof
    assume "''__typename'' \<in> set (map decimal [0..<length xs])"
    then obtain n where "decimal n = ''__typename''" by auto
    with decimal_digits[of n] show False by auto
  qed
  then show ?thesis
    unfolding index_props_def by (auto simp: map_of_eq_None_iff dest!: set_zip_leftD)
qed

lemma member_Arr_typename [simp]: "member (Arr xs) ''__typename'' = Undefined"
  by (simp add: typename_not_index)

lemma setTypename_scalar:
  "typeof data \<noteq> ''object'' \<or> data = Null \<Longrightarrow> setTypename data f = data"
  by (auto simp: setTypename_def)


lemma setTypename_Arr:
  "setTypename (Arr items) f =
     Arr (map (\<lambda>item. Obj ([''__typename'' \<mapsto> Str (capitalizeFirstLetter f)] ++ own_props item))
            items)"
  by (simp add: setTypename_def typename_not_index)


section \<open>Properties of the field resolver\<close>

lemma resolver_no_directive:
  assumes "kappa_directive (directives info) = None" and "rootValue \<noteq> Null"
  shows "resolver api rfn type rs fieldName rootValue args ctx info =
     (let p = parent_of rootValue;
          aliasedNode = member p (resultKey info);
          preAliasingNode = member p fieldName
      in if aliasedNode \<noteq> Undefined \<or> preAliasingNode \<noteq> Undefined then
           Inr (js_or aliasedNode preAliasingNode)
         else if truthy (rs (js_or (member p ''__typename'') (Str type))) then
           (case member (rs (js_or (member p ''__typename'') (Str type))) fieldName of
              Fn n \<Rightarrow> (case rfn n p args ctx info of
                          Inl e \<Rightarrow> Inl e
                        | Inr data \<Rightarrow> Inr (setTypename data fieldName))
            | resolve \<Rightarrow> Inr resolve)
         else Inr Null)"
  using assms
  by (auto simp: resolver_def parent_of_def get_prop_def Let_def js_or_def)

text \<open>
  C10. A field that carries \<^verbatim>\<open>@kappa\<close> with a view and a method resolves to exactly what
  the method of that view yields for the arguments: for every parent value, resolver map
  and alias, and with nothing added to the result. The arguments are passed as they are
  when they are an arguments record (any truthy value); the engine's \<^verbatim>\<open>null\<close> for a
  field without arguments is passed as \<^verbatim>\<open>undefined\<close>, that is, as no argument.
\<close>

theorem resolver_directive_backed:
  assumes "kappa_directive (directives info) = Some a"
    and "api (arg_key a ''view'') = Some vw"
    and "methods vw (arg_key a ''method'') = Some f"
  shows "resolver api rfn type rs fieldName rootValue args ctx info
           = f (if truthy args then args else Undefined)"
  using assms by (simp add: resolver_def call_method_def js_or_def)

theorem resolver_directive_backed_witness:
  "kappa_directive (directives kappa_get_info)
     = Some [''view'' \<mapsto> ''items'', ''method'' \<mapsto> ''get'']
   \<and> resolver items_api (\<lambda>n p a c i. Inr Null) ''Query''
        (\<lambda>k. if k = Str ''Query'' then Obj [''item'' \<mapsto> Fn 0] else Undefined)
        ''item'' (Obj [''item'' \<mapsto> Num 1]) (Obj [''id'' \<mapsto> Str ''x1'']) () kappa_get_info
     = Inr (Obj [''asked'' \<mapsto> Obj [''id'' \<mapsto> Str ''x1'']])"
proof -
  have d: "kappa_directive (directives kappa_get_info)
             = Some [''view'' \<mapsto> ''items'', ''method'' \<mapsto> ''get'']"
    by (simp add: kappa_get_info_def kappa_directive_def)
  have v: "items_api (arg_key [''view'' \<mapsto> ''items'', ''method'' \<mapsto> ''get''] ''view'')
             = Some \<lparr>methods = [''get'' \<mapsto> (\<lambda>x. Inr (Obj [''asked'' \<mapsto> x]))]\<rparr>"
    by (simp add: items_api_def arg_key_def)
  have m: "methods \<lparr>methods = [''get'' \<mapsto> (\<lambda>x. Inr (Obj [''asked'' \<mapsto> x]))]\<rparr>
             (arg_key [''view'' \<mapsto> ''items'', ''method'' \<mapsto> ''get''] ''method'')
             = Some (\<lambda>x. Inr (Obj [''asked'' \<mapsto> x]))"
    by (simp add: arg_key_def)
  show ?thesis
    using d v m
      resolver_directive_backed[where info = kappa_get_info
        and a = "[''view'' \<mapsto> ''items'', ''method'' \<mapsto> ''get'']" and api = items_api
        and vw = "\<lparr>methods = [''get'' \<mapsto> (\<lambda>x. Inr (Obj [''asked'' \<mapsto> x]))]\<rparr>"
        and f = "\<lambda>x. Inr (Obj [''asked'' \<mapsto> x])" and rfn = "\<lambda>n p a c i. Inr Null" and type = "''Query''"
        and rs = "\<lambda>k. if k = Str ''Query'' then Obj [''item'' \<mapsto> Fn 0] else Undefined"
        and fieldName = "''item''" and rootValue = "Obj [''item'' \<mapsto> Num 1]"
        and args = "Obj [''id'' \<mapsto> Str ''x1'']" and ctx = "()"]
    by simp
qed



lemma resolver_alias_precedence:
  assumes "kappa_directive (directives info) = None" and "rootValue \<noteq> Null"
    and "member (parent_of rootValue) (resultKey info) \<noteq> Undefined
         \<or> member (parent_of rootValue) fieldName \<noteq> Undefined"
  shows "resolver api rfn type rs fieldName rootValue args ctx info =
           Inr (if truthy (member (parent_of rootValue) (resultKey info))
                then member (parent_of rootValue) (resultKey info)
                else member (parent_of rootValue) fieldName)"
  using assms by (auto simp: resolver_no_directive Let_def js_or_def)

text \<open>
  C2. The alias-keyed value is preferred only when it is truthy. For the field
  \<^verbatim>\<open>count: total\<close> on the parent \<^verbatim>\<open>{ count: 0 }\<close>, the alias-keyed value \<open>0\<close> is defined
  and the resolver returns \<^verbatim>\<open>undefined\<close>; on the parent \<^verbatim>\<open>{ count: 0, total: 5 }\<close> it
  returns the field-name-keyed \<open>5\<close>. (The selection \<^verbatim>\<open>aliasedNode || preAliasingNode\<close>
  tests truthiness, the guard before it tests definedness; \<open>resolver_alias_precedence\<close> is
  what holds in general.)
\<close>

theorem resolver_alias_falsy:
  "member zero_parent (resultKey count_info) = Num 0
   \<and> kappa_directive (directives count_info) = None
   \<and> resolver Map.empty (\<lambda>n p a c i. Inr Null) ''Query'' (\<lambda>k. Undefined) ''total''
        zero_parent Null () count_info = Inr Undefined
   \<and> member alias_parent (resultKey count_info) = Num 0
   \<and> member alias_parent ''total'' = Num 5
   \<and> resolver Map.empty (\<lambda>n p a c i. Inr Null) ''Query'' (\<lambda>k. Undefined) ''total''
        alias_parent Null () count_info = Inr (Num 5)"
  by (simp add: resolver_def kappa_directive_def get_prop_def js_or_def alias_parent_def
        zero_parent_def count_info_def)

theorem resolver_alias_falsy_witness:
  "resolver Map.empty (\<lambda>n p a c i. Inr Null) ''Query'' (\<lambda>k. Undefined) ''total''
     zero_parent Null () count_info \<noteq> Inr (member zero_parent (resultKey count_info))
   \<and> resolver Map.empty (\<lambda>n p a c i. Inr Null) ''Query'' (\<lambda>k. Undefined) ''total''
     alias_parent Null () count_info \<noteq> Inr (member alias_parent (resultKey count_info))"
  using resolver_alias_falsy by simp

text \<open>
  C3, as stated, fails: a resolver map for \<open>Query\<close> exists, it has no entry for the field
  \<open>other\<close>, neither key is present on the parent, and the resolver returns
  \<^verbatim>\<open>undefined\<close>, not \<^verbatim>\<open>null\<close>.
\<close>

theorem resolver_missing_entry_undefined:
  "truthy (query_resolvers (Str ''Query''))
   \<and> member (query_resolvers (Str ''Query'')) ''other'' = Undefined
   \<and> member (parent_of Undefined) (resultKey other_info) = Undefined
   \<and> member (parent_of Undefined) ''other'' = Undefined
   \<and> resolver Map.empty (\<lambda>n p a c i. Inr Null) ''Query'' query_resolvers ''other''
        Undefined Null () other_info = Inr Undefined
   \<and> resolver Map.empty (\<lambda>n p a c i. Inr Null) ''Query'' query_resolvers ''other''
        Undefined Null () other_info \<noteq> Inr Null"
  by (simp add: resolver_def kappa_directive_def get_prop_def js_or_def parent_of_def
        query_resolvers_def other_info_def)

text \<open>
  C3, amended. Without a directive and with neither key present on the parent, the
  resolver map found for the parent's type name decides: a function entry is called and its
  result normalized; any other entry is returned as it is, which is \<^verbatim>\<open>undefined\<close> when the
  map has no entry for the field. When no resolver map is found for the type, the resolver
  returns \<^verbatim>\<open>null\<close>.
\<close>

theorem resolver_map_lookup:
  assumes "kappa_directive (directives info) = None"
    and "rootValue \<noteq> Null"
    and "member (parent_of rootValue) (resultKey info) = Undefined"
    and "member (parent_of rootValue) fieldName = Undefined"
  shows "(let resolverMap = rs (js_or (member (parent_of rootValue) ''__typename'') (Str type))
          in if truthy resolverMap then
               (case member resolverMap fieldName of
                  Fn n \<Rightarrow>
                    resolver api rfn type rs fieldName rootValue args ctx info
                      = (case rfn n (parent_of rootValue) args ctx info of
                           Inl e \<Rightarrow> Inl e
                         | Inr data \<Rightarrow> Inr (setTypename data fieldName))
                | entry \<Rightarrow>
                    resolver api rfn type rs fieldName rootValue args ctx info = Inr entry)
             else resolver api rfn type rs fieldName rootValue args ctx info = Inr Null)"
  using assms by (simp add: resolver_no_directive Let_def split: jsval.splits)

theorem resolver_map_lookup_witness:
  "resolver Map.empty (\<lambda>n p a c i. Inr (Obj [''id'' \<mapsto> Str ''x1''])) ''Query'' query_resolvers
      ''onItem'' Undefined Null () plain_info
     = Inr (setTypename (Obj [''id'' \<mapsto> Str ''x1'']) ''onItem'')
   \<and> resolver Map.empty (\<lambda>n p a c i. Inr Null) ''Mutation'' query_resolvers
      ''onItem'' Undefined Null () plain_info = Inr Null"
proof -
  have 1: "kappa_directive (directives plain_info) = None"
    by (simp add: plain_info_def kappa_directive_def)
  have 2: "Undefined \<noteq> Null" by simp
  have 3: "member (parent_of Undefined) (resultKey plain_info) = Undefined"
    by (simp add: parent_of_def)
  have 4: "member (parent_of Undefined) ''onItem'' = Undefined"
    by (simp add: parent_of_def)
  have a: "resolver Map.empty (\<lambda>n p a c i. Inr (Obj [''id'' \<mapsto> Str ''x1''])) ''Query''
      query_resolvers ''onItem'' Undefined Null () plain_info
     = Inr (setTypename (Obj [''id'' \<mapsto> Str ''x1'']) ''onItem'')"
    using resolver_map_lookup[OF 1 2 3 4, where rs = query_resolvers and type = "''Query''"
        and api = Map.empty and rfn = "\<lambda>n p a c i. Inr (Obj [''id'' \<mapsto> Str ''x1''])"
        and args = Null and ctx = "()"]
    by (simp add: parent_of_def js_or_def query_resolvers_def)
  have b: "resolver Map.empty (\<lambda>n p a c i. Inr Null) ''Mutation'' query_resolvers
      ''onItem'' Undefined Null () plain_info = Inr Null"
    using resolver_map_lookup[OF 1 2 3 4, where rs = query_resolvers and type = "''Mutation''"
        and api = Map.empty and rfn = "\<lambda>n p a c i. Inr Null"
        and args = Null and ctx = "()"]
    by (simp add: parent_of_def js_or_def query_resolvers_def)
  from a b show ?thesis by simp
qed

section \<open>Properties of the operation dispatcher\<close>

text \<open>
  C9. For an operation whose document carries no \<^verbatim>\<open>kappa\<close> directive, \<open>request\<close> returns
  what \<^verbatim>\<open>forward\<close> makes of the operation (whose context the link has extended before),
  and returns \<^verbatim>\<open>undefined\<close> when no \<^verbatim>\<open>forward\<close> is given. Nothing else runs: the result
  is neither a query nor a subscription, and it does not depend on the configured
  resolvers, whose factory is never called.
\<close>

theorem request_pass_through:
  assumes "\<not> hasDirectives [''kappa''] (query operation)"
  shows "request l operation (Some forward) = Forwarded (forward (extend_context l operation))
         \<and> request l operation None = (ReturnedUndefined :: ('x, 'r) request_result)
         \<and> request (l\<lparr>link_resolvers := r\<rparr>) operation fwd
             = (request l operation fwd :: ('x, 'r) request_result)"
  using assms by (simp add: request_def extend_context_def Let_def)

theorem request_pass_through_witness:
  "\<not> hasDirectives [''kappa''] (query items_operation)
   \<and> request sample_link items_operation (Some (\<lambda>operation. schemas (getContext operation)))
       = Forwarded (Some [(''type Item { id: ID }'', ''directive @kappa on FIELD'')])
   \<and> request sample_link items_operation None
       = (ReturnedUndefined :: (unit, (string \<times> string) list option) request_result)"
proof -
  have h: "\<not> hasDirectives [''kappa''] (query items_operation)"
    by (simp add: hasDirectives_def items_operation_def items_query_def)
  have e: "schemas (getContext (extend_context sample_link items_operation))
             = Some [(''type Item { id: ID }'', ''directive @kappa on FIELD'')]"
    by (simp add: extend_context_def sample_link_def items_operation_def normalizeTypeDefs_def
          trim_def is_space_def)
  show ?thesis
    using h e request_pass_through[OF h, where l = sample_link
        and forward = "\<lambda>operation. schemas (getContext operation)"
        and r = "link_resolvers sample_link" and fwd = None]
    by simp
qed

section \<open>Properties of the life of a subscription\<close>

lemma run_callback_fresh: "fresh_ids w \<Longrightarrow> fresh_ids (run_callback w cb)"
  by (auto simp: run_callback_def fresh_ids_def less_Suc_eq split: sub_resolver.splits jsval.splits)

lemma foldl_run_callback_fresh: "fresh_ids w \<Longrightarrow> fresh_ids (foldl run_callback w cbs)"
  by (induction cbs arbitrary: w) (auto simp: run_callback_fresh)

lemma run_callback_cells: "(run_callback w cb)\<lparr>cells := []\<rparr> = run_callback (w\<lparr>cells := []\<rparr>) cb"
  by (auto simp: run_callback_def split: sub_resolver.splits jsval.splits)

lemma foldl_run_callback_cells:
  "(foldl run_callback w cbs)\<lparr>cells := []\<rparr> = foldl run_callback (w\<lparr>cells := []\<rparr>) cbs"
  by (induction cbs arbitrary: w) (auto simp: run_callback_cells)

lemma run_callback_length: "length (cells (run_callback w cb)) = length (cells w)"
  by (auto simp: run_callback_def split: sub_resolver.splits jsval.splits)

lemma foldl_run_callback_length: "length (cells (foldl run_callback w cbs)) = length (cells w)"
  by (induction cbs arbitrary: w) (auto simp: run_callback_length)

lemma run_callback_views: "views (run_callback w cb) = views w"
  by (auto simp: run_callback_def split: sub_resolver.splits jsval.splits)

lemma foldl_run_callback_views: "views (foldl run_callback w cbs) = views w"
  by (induction cbs arbitrary: w) (auto simp: run_callback_views)

lemma run_callback_emitted: "emitted (run_callback w cb) = emitted w"
  by (auto simp: run_callback_def split: sub_resolver.splits jsval.splits)

lemma foldl_run_callback_emitted: "emitted (foldl run_callback w cbs) = emitted w"
  by (induction cbs arbitrary: w) (auto simp: run_callback_emitted)

text \<open>The world in which the callbacks waiting in w have run, with one more (unset) cell.\<close>

lemma fire_ready_extra_cell:
  fixes w :: world
  defines "wa \<equiv> foldl run_callback (w\<lparr>cells := cells w @ [Unset], is_ready := True, waiting := []\<rparr>) (waiting w)"
  shows "wa\<lparr>cells := []\<rparr> = (fire_ready w)\<lparr>cells := []\<rparr>"
    and "length (cells wa) = Suc (length (cells w))"
  unfolding wa_def fire_ready_def
  by (simp_all add: foldl_run_callback_cells foldl_run_callback_length)

lemma cells_irrelevant:
  assumes "wa\<lparr>cells := []\<rparr> = wb\<lparr>cells := []\<rparr>"
  shows "listeners wa = listeners wb" "next_id wa = next_id wb" "views wa = views wb"
    "emitted wa = emitted wb" "is_ready wa = is_ready wb" "uncaught wa = uncaught wb"
proof -
  have "listeners wa = listeners (wa\<lparr>cells := []\<rparr>)" by simp
  also have "\<dots> = listeners wb" by (simp add: assms)
  finally show "listeners wa = listeners wb" .
  have "next_id wa = next_id (wa\<lparr>cells := []\<rparr>)" by simp
  also have "\<dots> = next_id wb" by (simp add: assms)
  finally show "next_id wa = next_id wb" .
  have "views wa = views (wa\<lparr>cells := []\<rparr>)" by simp
  also have "\<dots> = views wb" by (simp add: assms)
  finally show "views wa = views wb" .
  have "emitted wa = emitted (wa\<lparr>cells := []\<rparr>)" by simp
  also have "\<dots> = emitted wb" by (simp add: assms)
  finally show "emitted wa = emitted wb" .
  have "is_ready wa = is_ready (wa\<lparr>cells := []\<rparr>)" by simp
  also have "\<dots> = is_ready wb" by (simp add: assms)
  finally show "is_ready wa = is_ready wb" .
  have "uncaught wa = uncaught (wa\<lparr>cells := []\<rparr>)" by simp
  also have "\<dots> = uncaught wb" by (simp add: assms)
  finally show "uncaught wa = uncaught wb" .
qed

lemma fire_ready_is_ready: "is_ready (fire_ready w)"
proof -
  have "\<And>w. is_ready (run_callback w cb) = is_ready w" for cb
    by (auto simp: run_callback_def split: sub_resolver.splits jsval.splits)
  then have "\<And>w. is_ready (foldl run_callback w cbs) = is_ready w" for cbs
    by (induction cbs) auto
  then show ?thesis by (simp add: fire_ready_def)
qed

lemma fire_ready_fresh: "fresh_ids w \<Longrightarrow> fresh_ids (fire_ready w)"
proof -
  assume "fresh_ids w"
  then have "fresh_ids (w\<lparr>is_ready := True, waiting := []\<rparr>)" by (simp add: fresh_ids_def)
  then show ?thesis unfolding fire_ready_def by (rule foldl_run_callback_fresh)
qed

lemma settled_views: "views (settled w) = views w"
  by (simp add: settled_def fire_ready_def foldl_run_callback_views)

lemma settled_emitted: "emitted (settled w) = emitted w"
  by (simp add: settled_def fire_ready_def foldl_run_callback_emitted)

lemma settled_ready: "is_ready (settled w)"
  by (simp add: settled_def fire_ready_is_ready)

lemma settled_fresh: "fresh_ids w \<Longrightarrow> fresh_ids (settled w)"
  by (simp add: settled_def fire_ready_fresh)

text \<open>The shape of a subscription made before the gate has fired, once it fires.\<close>

lemma fire_ready_subscribe:
  assumes "\<not> is_ready w" "b_resolver b = OnEvent v e f" "v \<in> views w"
  shows "\<exists>wa. wa\<lparr>cells := []\<rparr> = (fire_ready w)\<lparr>cells := []\<rparr>
           \<and> length (cells wa) = Suc (length (cells w))
           \<and> fire_ready (fst (subscribe w b obs)) =
               wa\<lparr>listeners := listeners wa @ [new_listener (fire_ready w) v e f b obs],
                  next_id := Suc (next_id wa),
                  cells := (cells wa)[length (cells w) := Remover (next_id wa)]\<rparr>"
proof -
  define wa where "wa = foldl run_callback (w\<lparr>cells := cells w @ [Unset], is_ready := True, waiting := []\<rparr>) (waiting w)"
  have 1: "wa\<lparr>cells := []\<rparr> = (fire_ready w)\<lparr>cells := []\<rparr>"
    and 2: "length (cells wa) = Suc (length (cells w))"
    unfolding wa_def by (rule fire_ready_extra_cell)+
  have v: "v \<in> views wa" using assms(3) by (simp add: wa_def foldl_run_callback_views)
  have n: "next_id wa = next_id (fire_ready w)" using cells_irrelevant(2)[OF 1] .
  have "fire_ready (fst (subscribe w b obs)) = run_callback wa \<lparr>cb_cell = length (cells w), cb_binding = b, cb_observer = obs\<rparr>"
    using assms(1) by (simp add: subscribe_def fire_ready_def Let_def wa_def)
  also have "\<dots> = wa\<lparr>listeners := listeners wa @ [new_listener (fire_ready w) v e f b obs],
                  next_id := Suc (next_id wa),
                  cells := (cells wa)[length (cells w) := Remover (next_id wa)]\<rparr>"
    using v assms(2) n by (simp add: run_callback_def new_listener_def)
  finally show ?thesis using 1 2 by blast
qed


lemma subscribe_ready:
  assumes "is_ready w" "b_resolver b = OnEvent v e f" "v \<in> views w"
  shows "fst (subscribe w b obs) =
           w\<lparr>listeners := listeners w @ [new_listener w v e f b obs],
             next_id := Suc (next_id w),
             cells := cells w @ [Remover (next_id w)]\<rparr>"
    and "snd (subscribe w b obs) = length (cells w)"
  using assms by (simp_all add: subscribe_def run_callback_def new_listener_def Let_def)

lemma subscribe_waiting:
  assumes "\<not> is_ready w"
  shows "fst (subscribe w b obs) =
           w\<lparr>cells := cells w @ [Unset],
             waiting := waiting w @ [\<lparr>cb_cell = length (cells w), cb_binding = b, cb_observer = obs\<rparr>]\<rparr>"
    and "snd (subscribe w b obs) = length (cells w)"
  using assms by (simp_all add: subscribe_def Let_def)

lemma filter_fresh:
  "fresh_ids w \<Longrightarrow> filter (\<lambda>l. l_id l \<noteq> next_id w) (listeners w) = listeners w"
  by (auto simp: fresh_ids_def filter_id_conv)

lemma bound_world_listeners:
  assumes "b_resolver b = OnEvent v e f" "v \<in> views w"
  shows "listeners (bound_world w b obs)
           = listeners (settled w) @ [new_listener (settled w) v e f b obs]"
    and "emitted (bound_world w b obs) = emitted w"
proof -
  show "listeners (bound_world w b obs)
           = listeners (settled w) @ [new_listener (settled w) v e f b obs]"
  proof (cases "is_ready w")
    case True
    then show ?thesis
      using subscribe_ready(1)[OF True assms, of obs] by (simp add: bound_world_def settled_def)
  next
    case False
    from fire_ready_subscribe[OF False assms, of obs] obtain wa where
      1: "wa\<lparr>cells := []\<rparr> = (fire_ready w)\<lparr>cells := []\<rparr>" and
      3: "fire_ready (fst (subscribe w b obs)) =
               wa\<lparr>listeners := listeners wa @ [new_listener (fire_ready w) v e f b obs],
                  next_id := Suc (next_id wa),
                  cells := (cells wa)[length (cells w) := Remover (next_id wa)]\<rparr>" by blast
    have "\<not> is_ready (fst (subscribe w b obs))" using False by (simp add: subscribe_waiting)
    then show ?thesis
      using False 3 cells_irrelevant(1)[OF 1] by (simp add: bound_world_def settled_def)
  qed
  show "emitted (bound_world w b obs) = emitted w"
    by (simp add: bound_world_def settled_emitted subscribe_def Let_def run_callback_emitted)
qed

lemma deliver_emitted: "emitted (deliver ff d ls w) = emitted w @ emissions ff d ls"
proof (induction ls arbitrary: w)
  case Nil
  show ?case by simp
next
  case (Cons l ls)
  show ?case
  proof (cases "onEvent ff l d")
    case (Inl err)
    then show ?thesis by simp
  next
    case (Inr r)
    then show ?thesis by (cases r) (simp_all add: Cons.IH)
  qed
qed

lemma emit_emitted:
  "emitted (emit ff w v e d)
     = emitted w @ emissions ff d (filter (\<lambda>l. l_view l = v \<and> l_event l = e) (listeners w))"
  by (simp add: emit_def deliver_emitted)

lemma deliver_listeners: "listeners (deliver ff d ls w) = listeners w"
proof (induction ls arbitrary: w)
  case Nil
  show ?case by simp
next
  case (Cons l ls)
  show ?case
  proof (cases "onEvent ff l d")
    case (Inl err)
    then show ?thesis by simp
  next
    case (Inr r)
    then show ?thesis by (cases r) (simp_all add: Cons.IH)
  qed
qed

lemma emit_listeners: "listeners (emit ff w v e d) = listeners w"
  by (simp add: emit_def deliver_listeners)



lemma unsubscribe_emitted: "emitted (unsubscribe w c) = emitted w"
  by (simp add: unsubscribe_def split: cell.splits)

lemma subscribe_fresh: "fresh_ids w \<Longrightarrow> fresh_ids (fst (subscribe w b obs))"
proof -
  assume f: "fresh_ids w"
  then have 1: "fresh_ids (w\<lparr>cells := cells w @ [Unset]\<rparr>)" by (simp add: fresh_ids_def)
  show ?thesis
  proof (cases "is_ready w")
    case True
    then show ?thesis using run_callback_fresh[OF 1] by (simp add: subscribe_def Let_def)
  next
    case False
    then show ?thesis using f by (simp add: subscribe_def Let_def fresh_ids_def)
  qed
qed

lemma unsubscribe_fresh: "fresh_ids w \<Longrightarrow> fresh_ids (unsubscribe w c)"
  by (auto simp: unsubscribe_def fresh_ids_def split: cell.splits)

lemma deliver_next_id: "next_id (deliver ff d ls w) = next_id w"
proof (induction ls arbitrary: w)
  case Nil
  show ?case by simp
next
  case (Cons l ls)
  show ?case
  proof (cases "onEvent ff l d")
    case (Inl err)
    then show ?thesis by simp
  next
    case (Inr r)
    then show ?thesis by (cases r) (simp_all add: Cons.IH)
  qed
qed

lemma emit_fresh: "fresh_ids w \<Longrightarrow> fresh_ids (emit ff w v e d)"
  by (simp add: fresh_ids_def emit_listeners) (simp add: emit_def deliver_next_id)

text \<open>
  C1, amended. For a subscription bound by \<^verbatim>\<open>@kappa(view, event)\<close> on an existing view:
  once the readiness gate has fired, \<^verbatim>\<open>unsubscribe\<close> removes the listener of the
  subscription, and the emitter is as if the subscription had never been made: the same
  listeners, and the same calls of \<^verbatim>\<open>observer.next\<close> for every event. An
  \<^verbatim>\<open>unsubscribe\<close> invoked before the gate fires changes nothing: the callback still
  waits, and when the gate fires it registers the listener, which stays registered.
\<close>

theorem unsubscribe_after_ready:
  assumes "fresh_ids w" and "b_resolver b = OnEvent v e f" and "v \<in> views w"
  shows "listeners (unsubscribe (bound_world w b obs) (snd (subscribe w b obs)))
           = listeners (settled w)
       \<and> emitted (emit ff (unsubscribe (bound_world w b obs) (snd (subscribe w b obs))) v' e' d)
           = emitted (emit ff (settled w) v' e' d)
       \<and> (\<not> is_ready w \<longrightarrow>
            unsubscribe (fst (subscribe w b obs)) (snd (subscribe w b obs))
              = fst (subscribe w b obs)
          \<and> listeners (fire_ready (unsubscribe (fst (subscribe w b obs)) (snd (subscribe w b obs))))
              = listeners (fire_ready w) @ [new_listener (fire_ready w) v e f b obs])"
proof -
  let ?w1 = "fst (subscribe w b obs)"
  let ?c = "snd (subscribe w b obs)"
  have removed: "listeners (unsubscribe (bound_world w b obs) ?c) = listeners (settled w)"
  proof (cases "is_ready w")
    case True
    show ?thesis
      using True assms(1) subscribe_ready[OF True assms(2,3), of obs]
      by (simp add: bound_world_def settled_def unsubscribe_def nth_append filter_fresh
            new_listener_def)
  next
    case False
    have c: "?c = length (cells w)" using False by (simp add: subscribe_waiting)
    from fire_ready_subscribe[OF False assms(2,3), of obs] obtain wa where
      1: "wa\<lparr>cells := []\<rparr> = (fire_ready w)\<lparr>cells := []\<rparr>" and
      2: "length (cells wa) = Suc (length (cells w))" and
      3: "fire_ready ?w1 =
               wa\<lparr>listeners := listeners wa @ [new_listener (fire_ready w) v e f b obs],
                  next_id := Suc (next_id wa),
                  cells := (cells wa)[length (cells w) := Remover (next_id wa)]\<rparr>" by blast
    have l: "listeners wa = listeners (fire_ready w)"
      and n: "next_id wa = next_id (fire_ready w)"
      using cells_irrelevant[OF 1] by simp_all
    have fr: "fresh_ids wa"
      using fire_ready_fresh[OF assms(1)] l n by (simp add: fresh_ids_def)
    have "listeners (unsubscribe (fire_ready ?w1) ?c) = listeners wa"
      using 2 filter_fresh[OF fr]
      by (simp add: 3 c unsubscribe_def new_listener_def n[symmetric])
    moreover have "bound_world w b obs = fire_ready ?w1"
      using False by (simp add: bound_world_def settled_def subscribe_waiting)
    ultimately show ?thesis using False l by (simp add: settled_def)
  qed
  have "emitted (unsubscribe (bound_world w b obs) ?c) = emitted (settled w)"
    using bound_world_listeners(2)[OF assms(2,3), of obs]
    by (simp add: unsubscribe_emitted settled_emitted)
  with removed have same:
    "emitted (emit ff (unsubscribe (bound_world w b obs) ?c) v' e' d)
       = emitted (emit ff (settled w) v' e' d)"
    by (simp add: emit_emitted)
  have early: "\<not> is_ready w \<longrightarrow>
            unsubscribe ?w1 ?c = ?w1
          \<and> listeners (fire_ready (unsubscribe ?w1 ?c))
              = listeners (fire_ready w) @ [new_listener (fire_ready w) v e f b obs]"
  proof
    assume False: "\<not> is_ready w"
    have noop: "unsubscribe ?w1 ?c = ?w1"
      using False by (simp add: subscribe_waiting unsubscribe_def)
    have "listeners (bound_world w b obs)
            = listeners (settled w) @ [new_listener (settled w) v e f b obs]"
      by (rule bound_world_listeners(1)[OF assms(2,3)])
    moreover have "bound_world w b obs = fire_ready ?w1"
      using False by (simp add: bound_world_def settled_def subscribe_waiting)
    ultimately show "unsubscribe ?w1 ?c = ?w1
          \<and> listeners (fire_ready (unsubscribe ?w1 ?c))
              = listeners (fire_ready w) @ [new_listener (fire_ready w) v e f b obs]"
      using False noop by (simp add: settled_def)
  qed
  from removed same early show ?thesis by blast
qed

theorem unsubscribe_after_ready_witness:
  "fresh_ids quiet_world
   \<and> b_resolver onItem_binding = OnEvent ''items'' ''added'' Undefined
   \<and> ''items'' \<in> views quiet_world
   \<and> listeners (unsubscribe (bound_world quiet_world onItem_binding 0)
                   (snd (subscribe quiet_world onItem_binding 0))) = []
   \<and> emitted (emit (\<lambda>n d a. Undefined)
                (unsubscribe (bound_world quiet_world onItem_binding 0)
                   (snd (subscribe quiet_world onItem_binding 0)))
                ''items'' ''added'' (Obj [''id'' \<mapsto> Str ''x1''])) = []
   \<and> \<not> is_ready quiet_world
   \<and> unsubscribe (fst (subscribe quiet_world onItem_binding 0))
                   (snd (subscribe quiet_world onItem_binding 0))
       = fst (subscribe quiet_world onItem_binding 0)
   \<and> length (listeners (fire_ready
         (unsubscribe (fst (subscribe quiet_world onItem_binding 0))
                      (snd (subscribe quiet_world onItem_binding 0))))) = 1"
proof -
  have r: "\<not> is_ready quiet_world" by (simp add: quiet_world_def)
  have f: "listeners (fire_ready quiet_world) = []"
    by (simp add: fire_ready_def quiet_world_def)
  have 1: "fresh_ids quiet_world" by (simp add: fresh_ids_def quiet_world_def)
  have 2: "b_resolver onItem_binding = OnEvent ''items'' ''added'' Undefined"
    by (simp add: onItem_binding_def)
  have 3: "''items'' \<in> views quiet_world" by (simp add: quiet_world_def)
  have s: "settled quiet_world = quiet_world\<lparr>is_ready := True\<rparr>"
    by (simp add: settled_def fire_ready_def quiet_world_def)
  have e: "emitted (emit (\<lambda>n d a. Undefined) (quiet_world\<lparr>is_ready := True\<rparr>)
             ''items'' ''added'' (Obj [''id'' \<mapsto> Str ''x1''])) = []"
    by (simp add: emit_def quiet_world_def)
  have l: "listeners (quiet_world\<lparr>is_ready := True\<rparr>) = []" by (simp add: quiet_world_def)
  have T: "listeners (unsubscribe (bound_world quiet_world onItem_binding 0)
                      (snd (subscribe quiet_world onItem_binding 0)))
             = listeners (settled quiet_world)
         \<and> emitted (emit (\<lambda>n d a. Undefined)
                (unsubscribe (bound_world quiet_world onItem_binding 0)
                   (snd (subscribe quiet_world onItem_binding 0)))
                ''items'' ''added'' (Obj [''id'' \<mapsto> Str ''x1'']))
             = emitted (emit (\<lambda>n d a. Undefined) (settled quiet_world)
                ''items'' ''added'' (Obj [''id'' \<mapsto> Str ''x1'']))
         \<and> (\<not> is_ready quiet_world \<longrightarrow>
              unsubscribe (fst (subscribe quiet_world onItem_binding 0))
                          (snd (subscribe quiet_world onItem_binding 0))
                = fst (subscribe quiet_world onItem_binding 0)
            \<and> listeners (fire_ready
                  (unsubscribe (fst (subscribe quiet_world onItem_binding 0))
                               (snd (subscribe quiet_world onItem_binding 0))))
                = listeners (fire_ready quiet_world)
                  @ [new_listener (fire_ready quiet_world) ''items'' ''added'' Undefined
                       onItem_binding 0])"
    by (rule unsubscribe_after_ready[OF 1 2 3])
  from T have a: "listeners (unsubscribe (bound_world quiet_world onItem_binding 0)
                      (snd (subscribe quiet_world onItem_binding 0))) = []"
    by (simp add: s l)
  from T have b: "emitted (emit (\<lambda>n d a. Undefined)
                (unsubscribe (bound_world quiet_world onItem_binding 0)
                   (snd (subscribe quiet_world onItem_binding 0)))
                ''items'' ''added'' (Obj [''id'' \<mapsto> Str ''x1''])) = []"
    by (simp add: s e)
  from T r have c: "unsubscribe (fst (subscribe quiet_world onItem_binding 0))
                   (snd (subscribe quiet_world onItem_binding 0))
       = fst (subscribe quiet_world onItem_binding 0)"
    by blast
  from T r have "listeners (fire_ready
         (unsubscribe (fst (subscribe quiet_world onItem_binding 0))
                      (snd (subscribe quiet_world onItem_binding 0))))
       = listeners (fire_ready quiet_world)
         @ [new_listener (fire_ready quiet_world) ''items'' ''added'' Undefined onItem_binding 0]"
    by blast
  then have d: "length (listeners (fire_ready
         (unsubscribe (fst (subscribe quiet_world onItem_binding 0))
                      (snd (subscribe quiet_world onItem_binding 0))))) = 1"
    by (simp add: f)
  from 1 2 3 a b r c d show ?thesis by blast
qed

text \<open>
  C1, as stated, fails: \<^verbatim>\<open>unsubscribe\<close> is invoked before the gate fires, the gate
  fires, and the listener is registered and stays; an event then reaches the observer.
\<close>

theorem early_unsubscribe_leaks:
  "listeners (fire_ready (unsubscribe (fst (subscribe quiet_world onItem_binding 0))
                                      (snd (subscribe quiet_world onItem_binding 0))))
     = [\<lparr>l_id = 0, l_view = ''items'', l_event = ''added'', l_filter = Undefined,
         l_args = Obj Map.empty, l_name = ''onItem'', l_observer = 0\<rparr>]
   \<and> emitted (emit (\<lambda>n d a. Undefined)
        (fire_ready (unsubscribe (fst (subscribe quiet_world onItem_binding 0))
                                 (snd (subscribe quiet_world onItem_binding 0))))
        ''items'' ''added'' (Obj [''id'' \<mapsto> Str ''x1'']))
     = [(0, Obj [''data'' \<mapsto> Obj [''onItem'' \<mapsto>
               Obj [''id'' \<mapsto> Str ''x1'', ''__typename'' \<mapsto> Str ''OnItem'']]])]"
  by (simp add: quiet_world_def onItem_binding_def subscribe_def unsubscribe_def fire_ready_def
        run_callback_def emit_def onEvent_def next_value_def Let_def setTypename_def
        capitalizeFirstLetter_def toUpperCase_char_def)

lemma find_append_case:
  "List.find P (xs @ ys) = (case List.find P xs of Some x \<Rightarrow> Some x | None \<Rightarrow> List.find P ys)"
  by (induction xs) auto

lemma visit_sels_find:
  "visit_sel s = List.find (\<lambda>f. has_kappa (snd f)) (sel_fields s)"
  "visit_sels ss = List.find (\<lambda>f. has_kappa (snd f)) (sels_fields ss)"
  by (induction s and ss rule: visit_sel_visit_sels.induct)
     (auto simp: find_append_case split: option.splits)

lemma visit_document_find:
  "visit_document doc = List.find (\<lambda>f. has_kappa (snd f)) (document_fields doc)"
  by (induction doc) (auto simp: document_fields_def visit_sels_find find_append_case split: option.splits)

lemma find_filter_head:
  "List.find P xs = (case filter P xs of [] \<Rightarrow> None | x # _ \<Rightarrow> Some x)"
  by (induction xs) auto

lemma visit_document_first:
  "visit_document doc = (case annotated_fields doc of [] \<Rightarrow> None | f # _ \<Rightarrow> Some f)"
  by (simp add: visit_document_find annotated_fields_def find_filter_head)

lemma runSubscription_bound:
  assumes "annotated_fields (query operation) = (name, ds) # later"
    and "getDirectiveInfoFromField ds = Some directive"
    and "directive ''kappa'' = Some (Args a)"
  shows "runSubscription type rs operation forward =
           Subscribable
             \<lparr>b_name = name,
              b_resolver =
                OnEvent (arg_key a ''view'') (arg_key a ''event'')
                  (member (js_or (member (js_or (rs (Str type)) (Obj Map.empty)) name)
                                 (Obj Map.empty)) ''filter''),
              b_variables = variables operation\<rparr>"
  using assms by (simp add: runSubscription_def visit_document_first Let_def)

text \<open>
  C7, amended. Let the annotated fields of the document, in pre-order, be a first one
  followed by any others, and let the first one's \<^verbatim>\<open>@kappa\<close> carry arguments that name
  an existing view. Then \<open>runSubscription\<close> returns a subscription that is determined by
  the first field alone; subscribing registers exactly one listener, on the view and event
  of the first field and under its name; and an event of any other view or event name
  (such as the pair of a later annotated field that differs from the first field's) causes
  no call of \<^verbatim>\<open>observer.next\<close> beyond those of the listeners that were there before.
  (\<open>visit_document_first\<close>: the traversal stops at the first annotated field in pre-order.)
\<close>

theorem subscription_binds_first_field:
  assumes "annotated_fields (query operation) = (name, ds) # later"
    and "getDirectiveInfoFromField ds = Some directive"
    and "directive ''kappa'' = Some (Args a)"
    and "arg_key a ''view'' \<in> views w"
  shows "(let v = arg_key a ''view'';
              e = arg_key a ''event'';
              flt = member (js_or (member (js_or (rs (Str type)) (Obj Map.empty)) name)
                                  (Obj Map.empty)) ''filter'';
              b = \<lparr>b_name = name, b_resolver = OnEvent v e flt,
                   b_variables = variables operation\<rparr>
          in runSubscription type rs operation forward = Subscribable b
           \<and> listeners (bound_world w b obs)
               = listeners (settled w) @ [new_listener (settled w) v e flt b obs]
           \<and> (\<forall>v' e' d. (v', e') \<noteq> (v, e) \<longrightarrow>
                emitted (emit ff (bound_world w b obs) v' e' d)
                  = emitted (emit ff (settled w) v' e' d)))"
proof -
  define flt where "flt = member (js_or (member (js_or (rs (Str type)) (Obj Map.empty)) name)
                                 (Obj Map.empty)) ''filter''"
  define v where "v = arg_key a ''view''"
  define e where "e = arg_key a ''event''"
  define b where "b = \<lparr>b_name = name, b_resolver = OnEvent v e flt,
                b_variables = variables operation\<rparr>"
  have run: "runSubscription type rs operation forward = Subscribable b"
    using runSubscription_bound[OF assms(1-3), of type rs forward]
    by (simp add: b_def v_def e_def flt_def)
  have r: "b_resolver b = OnEvent v e flt" by (simp add: b_def)
  have vw: "v \<in> views w" using assms(4) by (simp add: v_def)
  have l: "listeners (bound_world w b obs)
             = listeners (settled w) @ [new_listener (settled w) v e flt b obs]"
    by (rule bound_world_listeners(1)[OF r vw])
  have em: "emitted (bound_world w b obs) = emitted (settled w)"
    using bound_world_listeners(2)[OF r vw, of obs] by (simp add: settled_emitted)
  have other: "emitted (emit ff (bound_world w b obs) v' e' d)
                 = emitted (emit ff (settled w) v' e' d)"
    if "(v', e') \<noteq> (v, e)" for v' e' d
    using that by (auto simp: emit_emitted l em new_listener_def)
  from run l other show ?thesis
    unfolding Let_def v_def[symmetric] e_def[symmetric] flt_def[symmetric] b_def[symmetric]
    by blast
qed

theorem subscription_binds_first_field_witness:
  "annotated_fields (query subscription_operation)
     = [(''onItem'', [Directive ''kappa'' [(''view'', ''items''), (''event'', ''added'')]]),
        (''onGone'', [Directive ''kappa'' [(''view'', ''items''), (''event'', ''removed'')]])]
   \<and> runSubscription ''Subscription'' filtering_resolvers subscription_operation
        (None :: (unit operation \<Rightarrow> unit) option)
       = Subscribable filtered_binding
   \<and> listeners (bound_world quiet_world filtered_binding 0)
       = [\<lparr>l_id = 0, l_view = ''items'', l_event = ''added'', l_filter = Fn 0,
           l_args = Obj Map.empty, l_name = ''onItem'', l_observer = 0\<rparr>]
   \<and> emitted (emit (\<lambda>n d a. Bool True) (bound_world quiet_world filtered_binding 0)
                ''items'' ''removed'' (Obj [''id'' \<mapsto> Str ''x1''])) = []"
proof -
  have 1: "annotated_fields (query subscription_operation)
     = (''onItem'', [Directive ''kappa'' [(''view'', ''items''), (''event'', ''added'')]])
       # [(''onGone'', [Directive ''kappa'' [(''view'', ''items''), (''event'', ''removed'')]])]"
    by (simp add: subscription_operation_def two_field_subscription_def annotated_fields_def
          document_fields_def has_kappa_def)
  have 2: "getDirectiveInfoFromField
             [Directive ''kappa'' [(''view'', ''items''), (''event'', ''added'')]]
           = Some [''kappa'' \<mapsto> Args [''view'' \<mapsto> ''items'', ''event'' \<mapsto> ''added'']]"
    by (simp add: getDirectiveInfoFromField_def argumentsObject_def)
  have 3: "[''kappa'' \<mapsto> Args [''view'' \<mapsto> ''items'', ''event'' \<mapsto> ''added'']] ''kappa''
           = Some (Args [''view'' \<mapsto> ''items'', ''event'' \<mapsto> ''added''])"
    by simp
  have 4: "arg_key [''view'' \<mapsto> ''items'', ''event'' \<mapsto> ''added''] ''view'' \<in> views quiet_world"
    by (simp add: arg_key_def quiet_world_def)
  have k: "arg_key [''view'' \<mapsto> ''items'', ''event'' \<mapsto> ''added''] ''view'' = ''items''"
          "arg_key [''view'' \<mapsto> ''items'', ''event'' \<mapsto> ''added''] ''event'' = ''added''"
    by (simp_all add: arg_key_def)
  have f: "member (js_or (member (js_or (filtering_resolvers (Str ''Subscription''))
                                   (Obj Map.empty)) ''onItem'') (Obj Map.empty)) ''filter'' = Fn 0"
    by (simp add: filtering_resolvers_def js_or_def)
  have b: "\<lparr>b_name = ''onItem'', b_resolver = OnEvent ''items'' ''added'' (Fn 0),
            b_variables = variables subscription_operation\<rparr> = filtered_binding"
    by (simp add: filtered_binding_def subscription_operation_def)
  have s: "settled quiet_world = quiet_world\<lparr>is_ready := True\<rparr>"
    by (simp add: settled_def fire_ready_def quiet_world_def)
  have e: "emitted (emit (\<lambda>n d a. Bool True) (quiet_world\<lparr>is_ready := True\<rparr>)
             ''items'' ''removed'' (Obj [''id'' \<mapsto> Str ''x1''])) = []"
    by (simp add: emit_def quiet_world_def)
  have T: "runSubscription ''Subscription'' filtering_resolvers subscription_operation
             (None :: (unit operation \<Rightarrow> unit) option) = Subscribable filtered_binding
         \<and> listeners (bound_world quiet_world filtered_binding 0)
             = listeners (settled quiet_world)
               @ [new_listener (settled quiet_world) ''items'' ''added'' (Fn 0) filtered_binding 0]
         \<and> (\<forall>v' e' d. (v', e') \<noteq> (''items'', ''added'') \<longrightarrow>
               emitted (emit (\<lambda>n d a. Bool True) (bound_world quiet_world filtered_binding 0) v' e' d)
                 = emitted (emit (\<lambda>n d a. Bool True) (settled quiet_world) v' e' d))"
    using subscription_binds_first_field[OF 1 2 3 4, of filtering_resolvers "''Subscription''"
         "None :: (unit operation \<Rightarrow> unit) option" 0 "\<lambda>n d a. Bool True"]
    unfolding Let_def k f b by blast
  from T have l: "listeners (bound_world quiet_world filtered_binding 0)
       = [\<lparr>l_id = 0, l_view = ''items'', l_event = ''added'', l_filter = Fn 0,
           l_args = Obj Map.empty, l_name = ''onItem'', l_observer = 0\<rparr>]"
    by (simp add: s new_listener_def) (simp add: quiet_world_def filtered_binding_def)
  from T have "emitted (emit (\<lambda>n d a. Bool True) (bound_world quiet_world filtered_binding 0)
                ''items'' ''removed'' (Obj [''id'' \<mapsto> Str ''x1'']))
        = emitted (emit (\<lambda>n d a. Bool True) (settled quiet_world)
                ''items'' ''removed'' (Obj [''id'' \<mapsto> Str ''x1'']))"
    by simp
  with e have m: "emitted (emit (\<lambda>n d a. Bool True) (bound_world quiet_world filtered_binding 0)
                ''items'' ''removed'' (Obj [''id'' \<mapsto> Str ''x1''])) = []"
    by (simp add: s)
  from 1 T l m show ?thesis by simp
qed

text \<open>
  C7, as stated, fails in two ways. When a later annotated field repeats the view and
  event of the first, triggering the later field's pair does produce an emission (that of
  the first field's listener, under the first field's name). And when the first annotated
  field carries a bare \<^verbatim>\<open>@kappa\<close>, the link takes \<^verbatim>\<open>subscriptionResolvers[name]\<close> for
  the resolver; with no such entry, no event listener is bound at all, not even for the
  first field.
\<close>

theorem later_field_repeats_pair:
  "annotated_fields (query same_pair_operation)
     = [(''onItem'', [Directive ''kappa'' [(''view'', ''items''), (''event'', ''added'')]]),
        (''onAgain'', [Directive ''kappa'' [(''view'', ''items''), (''event'', ''added'')]])]
   \<and> runSubscription ''Subscription'' (\<lambda>k. Undefined) same_pair_operation
        (None :: (unit operation \<Rightarrow> unit) option)
       = Subscribable onItem_binding
   \<and> emitted (emit (\<lambda>n d a. Undefined) (bound_world quiet_world onItem_binding 0)
                ''items'' ''added'' (Obj [''id'' \<mapsto> Str ''x1'']))
       = [(0, Obj [''data'' \<mapsto> Obj [''onItem'' \<mapsto>
                 Obj [''id'' \<mapsto> Str ''x1'', ''__typename'' \<mapsto> Str ''OnItem'']]])]
   \<and> annotated_fields (query bare_operation)
     = [(''onItem'', [Directive ''kappa'' []]),
        (''onGone'', [Directive ''kappa'' [(''view'', ''items''), (''event'', ''removed'')]])]
   \<and> runSubscription ''Subscription'' (\<lambda>k. Undefined) bare_operation
        (None :: (unit operation \<Rightarrow> unit) option)
       = Subscribable bare_binding
   \<and> listeners (bound_world quiet_world bare_binding 0) = []"
proof -
  have a: "annotated_fields (query same_pair_operation)
     = [(''onItem'', [Directive ''kappa'' [(''view'', ''items''), (''event'', ''added'')]]),
        (''onAgain'', [Directive ''kappa'' [(''view'', ''items''), (''event'', ''added'')]])]"
    by (simp add: same_pair_operation_def annotated_fields_def document_fields_def has_kappa_def)
  have b: "runSubscription ''Subscription'' (\<lambda>k. Undefined) same_pair_operation
        (None :: (unit operation \<Rightarrow> unit) option) = Subscribable onItem_binding"
    by (simp add: runSubscription_def same_pair_operation_def has_kappa_def
          getDirectiveInfoFromField_def argumentsObject_def arg_key_def js_or_def
          onItem_binding_def)
  have c: "emitted (emit (\<lambda>n d a. Undefined) (bound_world quiet_world onItem_binding 0)
                ''items'' ''added'' (Obj [''id'' \<mapsto> Str ''x1'']))
       = [(0, Obj [''data'' \<mapsto> Obj [''onItem'' \<mapsto>
                 Obj [''id'' \<mapsto> Str ''x1'', ''__typename'' \<mapsto> Str ''OnItem'']]])]"
    by (simp add: bound_world_def settled_def quiet_world_def onItem_binding_def subscribe_def
          fire_ready_def run_callback_def emit_def onEvent_def next_value_def Let_def
          setTypename_def capitalizeFirstLetter_def toUpperCase_char_def)
  have d: "annotated_fields (query bare_operation)
     = [(''onItem'', [Directive ''kappa'' []]),
        (''onGone'', [Directive ''kappa'' [(''view'', ''items''), (''event'', ''removed'')]])]"
    by (simp add: bare_operation_def annotated_fields_def document_fields_def has_kappa_def)
  have e: "runSubscription ''Subscription'' (\<lambda>k. Undefined) bare_operation
        (None :: (unit operation \<Rightarrow> unit) option) = Subscribable bare_binding"
    by (simp add: runSubscription_def bare_operation_def has_kappa_def
          getDirectiveInfoFromField_def argumentsObject_def js_or_def bare_binding_def)
  have f: "listeners (bound_world quiet_world bare_binding 0) = []"
    by (simp add: bound_world_def settled_def quiet_world_def bare_binding_def subscribe_def
          fire_ready_def run_callback_def Let_def)
  from a b c d e f show ?thesis by blast
qed







section \<open>Properties of the result normalizer on a store\<close>

text \<open>
  \<^verbatim>\<open>setTypename\<close> of \<^verbatim>\<open>src/link.js\<close> only adds objects to the store: every object that
  existed before, the one passed in and the elements of an array among them, is unchanged.
\<close>

lemma copy_items_extends: "\<exists>ext. fst (copy_items h items tn) = h @ ext"
proof (induction items arbitrary: h)
  case Nil
  show ?case by simp
next
  case (Cons item items)
  let ?h1 = "h @ [\<lparr>kind = PlainObject, elems = [],
                    props = [''__typename'' \<mapsto> HStr tn] ++ spread h item\<rparr>]"
  obtain ext where "fst (copy_items ?h1 items tn) = ?h1 @ ext"
    using Cons.IH by blast
  then show ?case
    by (auto simp: alloc_def split: prod.splits)
qed

lemma setTypename_store_extends: "\<exists>ext. fst (setTypename_store h data f) = h @ ext"
proof (cases "lacks_typename h data")
  case None
  then show ?thesis by (simp add: setTypename_store_def)
next
  case (Some a)
  show ?thesis
  proof (cases "kind (h ! a) = ArrayObject")
    case True
    obtain ext where "fst (copy_items h (elems (h ! a)) (capitalizeFirstLetter f)) = h @ ext"
      using copy_items_extends by blast
    with Some True show ?thesis
      by (auto simp: setTypename_store_def alloc_def split: prod.splits)
  next
    case False
    with Some show ?thesis by (simp add: setTypename_store_def alloc_def)
  qed
qed

lemma setTypename_store_frame:
  "a < length h \<Longrightarrow> fst (setTypename_store h data f) ! a = h ! a"
  using setTypename_store_extends[of h data f] by (auto simp: nth_append)

text \<open>
  The shape of what it adds, for a store without dangling references: one object per
  element of an array, made of the discriminator with the properties of the element spread
  over it, as in \<open>setTypename_Arr\<close>.
\<close>

lemma spread_append:
  "(\<forall>a. item = HRef a \<longrightarrow> a < length h) \<Longrightarrow> spread (h @ ext) item = spread h item"
  by (cases item) (auto simp: nth_append)

lemma copy_items_closed:
  assumes "\<forall>item \<in> set items. \<forall>a. item = HRef a \<longrightarrow> a < length h"
  shows "copy_items h items tn =
           (h @ map (\<lambda>item. \<lparr>kind = PlainObject, elems = [],
                              props = [''__typename'' \<mapsto> HStr tn] ++ spread h item\<rparr>) items,
            map HRef [length h ..< length h + length items])"
  using assms
proof (induction items arbitrary: h)
  case Nil
  show ?case by simp
next
  case (Cons item items)
  let ?obj = "\<lparr>kind = PlainObject, elems = [],
               props = [''__typename'' \<mapsto> HStr tn] ++ spread h item\<rparr>"
  have valid: "\<forall>i \<in> set items. \<forall>a. i = HRef a \<longrightarrow> a < length (h @ [?obj])"
    using Cons.prems by auto
  have same: "\<And>i. i \<in> set items \<Longrightarrow> spread (h @ [?obj]) i = spread h i"
    using Cons.prems by (intro spread_append) auto
  have ih: "copy_items (h @ [?obj]) items tn =
          ((h @ [?obj]) @ map (\<lambda>i. \<lparr>kind = PlainObject, elems = [],
                              props = [''__typename'' \<mapsto> HStr tn] ++ spread (h @ [?obj]) i\<rparr>) items,
           map HRef [length (h @ [?obj]) ..< length (h @ [?obj]) + length items])"
    by (rule Cons.IH[OF valid])
  have objs: "map (\<lambda>i. \<lparr>kind = PlainObject, elems = [],
                     props = [''__typename'' \<mapsto> HStr tn] ++ spread (h @ [?obj]) i\<rparr>) items
           = map (\<lambda>i. \<lparr>kind = PlainObject, elems = [],
                     props = [''__typename'' \<mapsto> HStr tn] ++ spread h i\<rparr>) items"
    using same by simp
  have refs: "map HRef [length h ..< length h + length (item # items)]
           = HRef (length h) # map HRef [length (h @ [?obj]) ..< length (h @ [?obj]) + length items]"
    by (simp add: upt_conv_Cons del: upt_Suc)
  have "copy_items h (item # items) tn
          = (fst (copy_items (h @ [?obj]) items tn),
             HRef (length h) # snd (copy_items (h @ [?obj]) items tn))"
    by (simp add: alloc_def split: prod.splits)
  also have "\<dots> = ((h @ [?obj]) @ map (\<lambda>i. \<lparr>kind = PlainObject, elems = [],
                              props = [''__typename'' \<mapsto> HStr tn] ++ spread h i\<rparr>) items,
                     map HRef [length h ..< length h + length (item # items)])"
    by (simp only: ih objs refs fst_conv snd_conv)
  also have "(h @ [?obj]) @ map (\<lambda>i. \<lparr>kind = PlainObject, elems = [],
                              props = [''__typename'' \<mapsto> HStr tn] ++ spread h i\<rparr>) items
           = h @ map (\<lambda>i. \<lparr>kind = PlainObject, elems = [],
                              props = [''__typename'' \<mapsto> HStr tn] ++ spread h i\<rparr>) (item # items)"
    by (simp only: list.map append_assoc append_Cons append_Nil)
  finally show ?case .
qed

lemma setTypename_store_keeps_element:
  assumes "lacks_typename h data = Some a" and "kind (h ! a) = ArrayObject"
    and "\<forall>item \<in> set (elems (h ! a)). \<forall>b. item = HRef b \<longrightarrow> b < length h"
    and "i < length (elems (h ! a))" and "elems (h ! a) ! i = HRef b"
    and "kind (h ! b) = PlainObject" and "props (h ! b) ''__typename'' = Some t"
  shows "snd (setTypename_store h data f) = HRef (length h + length (elems (h ! a)))
       \<and> elems (fst (setTypename_store h data f) ! (length h + length (elems (h ! a))))
           = map HRef [length h ..< length h + length (elems (h ! a))]
       \<and> props (fst (setTypename_store h data f) ! (length h + i)) = props (h ! b)
       \<and> fst (setTypename_store h data f) ! b = h ! b"
proof -
  let ?items = "elems (h ! a)"
  let ?objs = "map (\<lambda>item. \<lparr>kind = PlainObject, elems = [],
                  props = [''__typename'' \<mapsto> HStr (capitalizeFirstLetter f)] ++ spread h item\<rparr>)
               ?items"
  have b: "b < length h" using assms(3,4,5) nth_mem by fastforce
  have r: "setTypename_store h data f =
             (h @ ?objs @ [\<lparr>kind = ArrayObject,
                             elems = map HRef [length h ..< length h + length ?items],
                             props = Map.empty\<rparr>],
              HRef (length h + length ?items))"
    using assms(1,2) copy_items_closed[OF assms(3), of "capitalizeFirstLetter f"]
    by (simp add: setTypename_store_def alloc_def)
  have "[''__typename'' \<mapsto> HStr (capitalizeFirstLetter f)] ++ props (h ! b) = props (h ! b)"
    using assms(7) by (auto simp: map_add_def fun_eq_iff split: option.splits)
  then have p: "props (?objs ! i) = props (h ! b)"
    using assms(4,5,6) b by simp
  show ?thesis
    using assms(4) b p by (simp add: r nth_append)
qed

text \<open>
  On values, \<^verbatim>\<open>setTypename\<close> of \<^verbatim>\<open>src/link.js\<close> returns an object with a (truthy)
  discriminator as it is, and an element of an array that has a \<^verbatim>\<open>__typename\<close> of its
  own comes out as it went in.
\<close>

lemma setTypename_keeps_object:
  "truthy (member (Obj m) ''__typename'') \<Longrightarrow> setTypename (Obj m) f = Obj m"
  by (simp add: setTypename_def)

lemma setTypename_keeps_element:
  assumes "i < length items" and "items ! i = Obj m" and "m ''__typename'' = Some t"
  shows "\<exists>items'. setTypename (Arr items) f = Arr items' \<and> length items' = length items
           \<and> items' ! i = Obj m"
proof -
  have "[''__typename'' \<mapsto> Str (capitalizeFirstLetter f)] ++ m = m"
    using assms(3) by (auto simp: map_add_def fun_eq_iff split: option.splits)
  then show ?thesis using assms(1,2) by (simp add: setTypename_Arr)
qed

text \<open>
  C4. The assigning copy of \<^verbatim>\<open>setTypename\<close> overwrites the discriminator of an array
  element: for the array \<^verbatim>\<open>[{ __typename: 'Cat' }]\<close> and the
  field \<^verbatim>\<open>pets\<close>, the element ends with \<^verbatim>\<open>__typename: 'Pets'\<close>. \<^verbatim>\<open>setTypename\<close> of
  \<^verbatim>\<open>src/link.js\<close> returns, for the same input, a new array with a new element that has
  kept \<^verbatim>\<open>'Cat'\<close>.
\<close>

theorem typename_overwritten_in_place:
  "setTypename_inplace pets_store (HRef 1) ''pets''
     = ([\<lparr>kind = PlainObject, elems = [], props = [''__typename'' \<mapsto> HStr ''Pets'']\<rparr>,
         \<lparr>kind = ArrayObject, elems = [HRef 0], props = Map.empty\<rparr>,
         \<lparr>kind = ArrayObject, elems = [HRef 0], props = Map.empty\<rparr>], Inr (HRef 2))
   \<and> props (pets_store ! 0) ''__typename'' = Some (HStr ''Cat'')
   \<and> setTypename_store pets_store (HRef 1) ''pets''
     = (pets_store @
        [\<lparr>kind = PlainObject, elems = [], props = [''__typename'' \<mapsto> HStr ''Cat'']\<rparr>,
         \<lparr>kind = ArrayObject, elems = [HRef 2], props = Map.empty\<rparr>], HRef 3)"
  by (simp add: pets_store_def setTypename_inplace_def setTypename_store_def lacks_typename_def
        assign_typename_def alloc_def capitalizeFirstLetter_def toUpperCase_char_def)

text \<open>
  C5. The assigning copy of \<^verbatim>\<open>setTypename\<close> changes the object it is given: for \<^verbatim>\<open>{ id: 'x1' }\<close> and the field \<^verbatim>\<open>onItem\<close>, the object at the address
  passed in has gained \<^verbatim>\<open>__typename: 'OnItem'\<close> and the same address is returned.
  \<^verbatim>\<open>setTypename\<close> of \<^verbatim>\<open>src/link.js\<close> leaves that object alone and returns a new one.
\<close>

theorem input_mutated_in_place:
  "setTypename_inplace item_store (HRef 0) ''onItem''
     = ([\<lparr>kind = PlainObject, elems = [],
          props = [''id'' \<mapsto> HStr ''x1'', ''__typename'' \<mapsto> HStr ''OnItem'']\<rparr>], Inr (HRef 0))
   \<and> fst (setTypename_inplace item_store (HRef 0) ''onItem'') ! 0 \<noteq> item_store ! 0
   \<and> setTypename_store item_store (HRef 0) ''onItem''
     = (item_store @ [\<lparr>kind = PlainObject, elems = [],
          props = [''id'' \<mapsto> HStr ''x1'', ''__typename'' \<mapsto> HStr ''OnItem'']\<rparr>], HRef 1)"
  apply (simp add: item_store_def setTypename_inplace_def setTypename_store_def lacks_typename_def
        assign_typename_def alloc_def capitalizeFirstLetter_def toUpperCase_char_def)
  apply (auto simp: fun_eq_iff)
  done

end
